theory Spec2Isabelle
  imports Main
begin

section \<open>The signals client: src/utils/signals/useSignalsWorker.ts\<close>

text \<open>
  The hook \<^verbatim>\<open>useSignalsWorker\<close> is a React component function. Its model is a record of
  everything the hook owns (the \<^verbatim>\<open>useState\<close> cells, the \<^verbatim>\<open>useRef\<close> cells, the browser timers
  it has started, the messages it has posted to the shared worker and the callbacks it has
  invoked) and one function per event handler and per effect of the source. An event of
  the browser runs its handler, which queues its state updates. React renders the hook
  some time later, possibly after more events have been handled: the events handled
  between two renders form a \<open>task\<close>, and the render at its end runs the effects whose
  dependency arrays changed since the render before (\<open>commit\<close>).
\<close>

subsection \<open>Types\<close>

text \<open>\<^verbatim>\<open>SignalStatus\<close> and \<^verbatim>\<open>SignalState\<close> (lines 6 to 11 of the source).\<close>

datatype SignalStatus = Connected | Closed | Error | Reconnected | Reconnecting

record SignalState =
  status :: SignalStatus
  message :: "string option"

text \<open>
  Modelled from the spec: the type \<^verbatim>\<open>WorkerOutgoingMessage\<close> is declared in \<^verbatim>\<open>./types\<close>, which
  is not among the sources. The inbound vocabulary of section 6 of the specification is
  taken, which is also the list of the branches of \<^verbatim>\<open>worker.port.onmessage\<close>. The type
  parameter stands for the type \<^verbatim>\<open>unknown\<close> of payloads and arguments.
\<close>

datatype 'v WorkerOutgoingMessage =
    WorkerReady
  | ConnectionReady
  | ConnectionClosed "string option"
  | ConnectionError "string option"
  | ConnectionReconnected
  | ConnectionReconnecting
  | EventReceived string 'v
  | Pong

text \<open>The messages that the hook posts to the port of the worker.\<close>

datatype 'v WorkerIncomingMessage =
    ConnectionInit string
  | Send string 'v
  | EventRegister string
  | Ping
  | BeforeUnload

text \<open>
  The second argument of the hook. Each callback is optional: \<open>None\<close> when it is not
  supplied. The effect on \<^verbatim>\<open>[state]\<close> returns what a status-specific callback returns
  (\<^verbatim>\<open>return onConnected?.()\<close>), so a supplied one is given by what it returns when called:
  nothing (\<^verbatim>\<open>undefined\<close>), a function, or any other value. The result of \<^verbatim>\<open>onStatusChange\<close>
  is not used, the field tells whether it is supplied.
\<close>

datatype returned = ReturnsNothing | ReturnsFunction | ReturnsValue

record options =
  onConnected :: "returned option"
  onReconnected :: "returned option"
  onReconnecting :: "returned option"
  onClosed :: "returned option"
  onError :: "returned option"
  onStatusChange :: bool

text \<open>
  An invocation of a callback of the application, with its argument. A listener
  registered through \<^verbatim>\<open>on\<close> is a function handle, here a number. \<open>CallReturned\<close> is the
  invocation, by React, of a function that a status-specific callback returned.
\<close>

datatype 'v call =
    CallStatusChange SignalState
  | CallConnected
  | CallReconnected
  | CallReconnecting
  | CallClosed "string option"
  | CallError "string option"
  | CallListener nat 'v
  | CallReturned

text \<open>The error that calling a value that is not a function raises.\<close>

datatype error = TypeError

text \<open>
  Modelled from the spec: the class \<^verbatim>\<open>Deferred\<close> of \<^verbatim>\<open>./utils\<close> is not among the sources. The
  specification calls it a single-shot resolvable and rejectable signal, resolvable exactly
  once: it is settled by the first \<^verbatim>\<open>resolve\<close> or \<^verbatim>\<open>reject\<close>, later calls do nothing. The
  field \<open>thenTimeout\<close> holds the handlers that \<^verbatim>\<open>handleVisibilityChange\<close> attaches to the
  promise: \<open>Some t\<close> when \<^verbatim>\<open>.then\<close> (which clears the timeout \<open>t\<close>) and \<^verbatim>\<open>.catch\<close> are attached,
  \<open>None\<close> for the object made by \<^verbatim>\<open>useRef(new Deferred())\<close>, which has none.
\<close>

datatype settled = Pending | Resolved | Rejected

record Deferred =
  outcome :: settled
  thenTimeout :: "nat option"

text \<open>
  Modelled from the spec: the class \<^verbatim>\<open>EventEmitter\<close> of \<^verbatim>\<open>./utils\<close> is not among the
  sources. Section 3 of the specification: a mapping from an event-target name to a set of
  callback handles, added on \<^verbatim>\<open>on\<close>, removed on matching \<^verbatim>\<open>off\<close>, all cleared on teardown;
  \<^verbatim>\<open>emit\<close> fans a payload out to the listeners of its target. The registrations are kept
  in the order they were made, without duplicates.
\<close>

type_synonym EventEmitter = "(string \<times> nat) list"

definition emitter_on :: "string \<Rightarrow> nat \<Rightarrow> EventEmitter \<Rightarrow> EventEmitter" where
  "emitter_on target cb em = (if (target, cb) \<in> set em then em else em @ [(target, cb)])"

definition emitter_off :: "string \<Rightarrow> nat \<Rightarrow> EventEmitter \<Rightarrow> EventEmitter" where
  "emitter_off target cb em = filter (\<lambda>p. p \<noteq> (target, cb)) em"

definition emitter_emit :: "EventEmitter \<Rightarrow> string \<Rightarrow> 'v \<Rightarrow> 'v call list" where
  "emitter_emit em target payload =
     map (\<lambda>p. CallListener (snd p) payload) (filter (\<lambda>p. fst p = target) em)"

definition emitter_stop :: "EventEmitter \<Rightarrow> EventEmitter" where
  "emitter_stop em = []"

text \<open>
  The hook. \<open>accessToken\<close> and \<open>options\<close> are the arguments of the last render;
  \<open>state\<close>, \<open>ready\<close> and \<open>worker\<close> are the three \<^verbatim>\<open>useState\<close> cells (\<open>worker\<close> tells whether
  the cell holds a SharedWorker or null); \<open>stateId\<close> is the identity of the object in
  \<open>state\<close>, which the dependency array \<^verbatim>\<open>[state]\<close> compares; \<open>emitterRef\<close>, \<open>deferredRef\<close> and
  \<open>timerRef\<close> are the \<^verbatim>\<open>useRef\<close> cells, \<open>deferredRef\<close> being an address in the store
  \<open>deferreds\<close> of all Deferred objects made so far. \<open>timeouts\<close> are the pending
  \<^verbatim>\<open>setTimeout\<close> timers (handle and delay in ms), \<open>intervals\<close> the active \<^verbatim>\<open>setInterval\<close> timers
  (handle, period in ms and the token their callback closes over), \<open>nextTimer\<close> the next
  handle of the browser.
  \<open>posted\<close> and \<open>calls\<close> record what the hook has sent to the worker and which callbacks
  it has invoked, oldest first. \<open>statusDestroy\<close> is what the effect on \<^verbatim>\<open>[state]\<close> returned
  when it ran last, which React keeps as the cleanup of the effect, and \<open>errors\<close> are the
  errors raised inside the effects of the hook, which React catches.
\<close>

record 'v hook =
  accessToken :: "string option"
  options :: options
  state :: "SignalState option"
  stateId :: nat
  ready :: bool
  worker :: bool
  emitterRef :: EventEmitter
  deferreds :: "Deferred list"
  deferredRef :: nat
  timerRef :: "nat option"
  timeouts :: "(nat \<times> int) list"
  intervals :: "(nat \<times> int \<times> string) list"
  nextTimer :: nat
  posted :: "'v WorkerIncomingMessage list"
  calls :: "'v call list"
  statusDestroy :: returned
  errors :: "error list"

subsection \<open>Primitives\<close>

text \<open>\<^verbatim>\<open>setState(s)\<close>: a new object is stored.\<close>

definition setState :: "SignalState \<Rightarrow> 'v hook \<Rightarrow> 'v hook" where
  "setState s h = h\<lparr>state := Some s, stateId := Suc (stateId h)\<rparr>"

text \<open>\<^verbatim>\<open>worker?.port.postMessage(m)\<close>: nothing happens when the worker is null.\<close>

definition postMessage :: "'v WorkerIncomingMessage \<Rightarrow> 'v hook \<Rightarrow> 'v hook" where
  "postMessage m h = (if worker h then h\<lparr>posted := posted h @ [m]\<rparr> else h)"

text \<open>A JavaScript string is truthy when it is present and not empty.\<close>

definition truthy :: "string option \<Rightarrow> bool" where
  "truthy t = (case t of None \<Rightarrow> False | Some s \<Rightarrow> s \<noteq> [])"

text \<open>
  \<^verbatim>\<open>const disconnected = !state?.status || state.status === 'closed' || state.status === 'error'\<close>
\<close>

definition disconnected :: "SignalState option \<Rightarrow> bool" where
  "disconnected st =
     (case st of None \<Rightarrow> True | Some s \<Rightarrow> status s = Closed \<or> status s = Error)"

subsection \<open>The liveness probe (lines 92 to 106)\<close>

definition clearTimeout :: "nat \<Rightarrow> 'v hook \<Rightarrow> 'v hook" where
  "clearTimeout k h = h\<lparr>timeouts := filter (\<lambda>p. fst p \<noteq> k) (timeouts h)\<rparr>"

text \<open>The handler given to \<^verbatim>\<open>.then\<close>: \<^verbatim>\<open>clearTimeout(timeout); setReady(true)\<close>.\<close>

definition probe_then :: "nat \<Rightarrow> 'v hook \<Rightarrow> 'v hook" where
  "probe_then timeout h = (clearTimeout timeout h)\<lparr>ready := True\<rparr>"

text \<open>The handler given to \<^verbatim>\<open>.catch\<close>.\<close>

definition probe_catch :: "'v hook \<Rightarrow> 'v hook" where
  "probe_catch h =
     setState \<lparr>status = Closed, message = Some ''connection to shared worker lost''\<rparr>
       (h\<lparr>ready := False\<rparr>)"

text \<open>
  \<^verbatim>\<open>deferredRef.current.resolve()\<close> and \<^verbatim>\<open>deferredRef.current.reject()\<close>: the object that the
  reference holds now is settled, if it is still pending, and the handlers attached to
  its promise run before any other event.
\<close>

definition deferred_resolve :: "'v hook \<Rightarrow> 'v hook" where
  "deferred_resolve h =
     (let i = deferredRef h in
      if i < length (deferreds h) \<and> outcome (deferreds h ! i) = Pending then
        (let h' = h\<lparr>deferreds := (deferreds h)[i := (deferreds h ! i)\<lparr>outcome := Resolved\<rparr>]\<rparr>
         in case thenTimeout (deferreds h ! i) of
              None \<Rightarrow> h'
            | Some timeout \<Rightarrow> probe_then timeout h')
      else h)"

definition deferred_reject :: "'v hook \<Rightarrow> 'v hook" where
  "deferred_reject h =
     (let i = deferredRef h in
      if i < length (deferreds h) \<and> outcome (deferreds h ! i) = Pending then
        (let h' = h\<lparr>deferreds := (deferreds h)[i := (deferreds h ! i)\<lparr>outcome := Rejected\<rparr>]\<rparr>
         in case thenTimeout (deferreds h ! i) of
              None \<Rightarrow> h'
            | Some timeout \<Rightarrow> probe_catch h')
      else h)"

text \<open>
  \<^verbatim>\<open>handleVisibilityChange\<close>: a new Deferred replaces the one in \<^verbatim>\<open>deferredRef\<close>, a ping is
  posted, a timeout of 1000 ms is started and the two handlers are attached to the new
  promise. The callback of the timeout is \<^verbatim>\<open>() => deferredRef.current.reject()\<close>.
\<close>

definition handleVisibilityChange :: "'v hook \<Rightarrow> 'v hook" where
  "handleVisibilityChange h =
     (let timeout = nextTimer h in
      postMessage Ping
        (h\<lparr>deferreds := deferreds h @ [\<lparr>outcome = Pending, thenTimeout = Some timeout\<rparr>],
           deferredRef := length (deferreds h),
           timeouts := timeouts h @ [(timeout, 1000)],
           nextTimer := Suc timeout\<rparr>))"

text \<open>
  The browser fires the pending timeout with the handle \<open>k\<close>: it is no longer pending and
  its callback runs. A handle that is not pending (never started, cleared or already
  fired) fires nothing.
\<close>

definition timeout_fired :: "nat \<Rightarrow> 'v hook \<Rightarrow> 'v hook" where
  "timeout_fired k h =
     (if k \<in> fst ` set (timeouts h)
      then deferred_reject (clearTimeout k h)
      else h)"

subsection \<open>The message handler (lines 54 to 70)\<close>

fun onmessage :: "'v WorkerOutgoingMessage \<Rightarrow> 'v hook \<Rightarrow> 'v hook" where
  "onmessage WorkerReady h = h\<lparr>ready := True\<rparr>"
| "onmessage ConnectionReady h =
     setState
       (case state h of
          None \<Rightarrow> \<lparr>status = Connected, message = None\<rparr>
        | Some prev \<Rightarrow>
            if status prev = Closed \<or> status prev = Error
            then \<lparr>status = Reconnected, message = None\<rparr>
            else \<lparr>status = Connected, message = None\<rparr>) h"
| "onmessage (ConnectionClosed msg) h = setState \<lparr>status = Closed, message = msg\<rparr> h"
| "onmessage (ConnectionError msg) h = setState \<lparr>status = Error, message = msg\<rparr> h"
| "onmessage ConnectionReconnected h = setState \<lparr>status = Reconnected, message = None\<rparr> h"
| "onmessage ConnectionReconnecting h = setState \<lparr>status = Reconnecting, message = None\<rparr> h"
| "onmessage (EventReceived target payload) h =
     h\<lparr>calls := calls h @ emitter_emit (emitterRef h) target payload\<rparr>"
| "onmessage Pong h = deferred_resolve h"

subsection \<open>The effects\<close>

text \<open>
  An optional call \<^verbatim>\<open>cb?.(args)\<close>: the invocations it makes and its value, which is
  \<^verbatim>\<open>undefined\<close> when the callback is not supplied.
\<close>

definition optional_call :: "returned option \<Rightarrow> 'v call \<Rightarrow> 'v call list \<times> returned" where
  "optional_call cb c = (case cb of None \<Rightarrow> ([], ReturnsNothing) | Some r \<Rightarrow> ([c], r))"

text \<open>
  The effect with the dependencies \<^verbatim>\<open>[state]\<close> (lines 73 to 89): the callbacks it invokes,
  in order, and the value it returns. Without a state it returns at once; otherwise it
  calls \<^verbatim>\<open>onStatusChange\<close> and returns the value of the optional call of the callback of
  the status.
\<close>

definition status_effect :: "options \<Rightarrow> SignalState option \<Rightarrow> 'v call list \<times> returned" where
  "status_effect opts st =
     (case st of
        None \<Rightarrow> ([], ReturnsNothing)
      | Some s \<Rightarrow>
          (let changed = (if onStatusChange opts then [CallStatusChange s] else []);
               specific =
                 (case status s of
                    Connected \<Rightarrow> optional_call (onConnected opts) CallConnected
                  | Reconnected \<Rightarrow> optional_call (onReconnected opts) CallReconnected
                  | Reconnecting \<Rightarrow> optional_call (onReconnecting opts) CallReconnecting
                  | Closed \<Rightarrow> optional_call (onClosed opts) (CallClosed (message s))
                  | Error \<Rightarrow> optional_call (onError opts) (CallError (message s)))
           in (changed @ fst specific, snd specific)))"

text \<open>
  The cleanup of the effect on \<^verbatim>\<open>[state]\<close>, which React runs before it runs the effect
  again: React calls what the effect returned unless that is \<^verbatim>\<open>undefined\<close>. A function is
  invoked; any other value is not callable, the call raises a TypeError, which React
  catches, and React goes on with the other effects of the render. The error is recorded
  in \<open>errors\<close>; React reports it to the error boundary of the application, which is not
  part of the hook.
\<close>

definition status_cleanup :: "'v hook \<Rightarrow> 'v hook" where
  "status_cleanup h =
     (case statusDestroy h of
        ReturnsNothing \<Rightarrow> h
      | ReturnsFunction \<Rightarrow> h\<lparr>calls := calls h @ [CallReturned]\<rparr>
      | ReturnsValue \<Rightarrow> h\<lparr>errors := errors h @ [TypeError]\<rparr>)"

text \<open>The effect \<^verbatim>\<open>init\<close> with the dependencies \<^verbatim>\<open>[worker, accessToken, ready]\<close> (lines 128 to 131).\<close>

definition init_effect :: "'v hook \<Rightarrow> 'v hook" where
  "init_effect h =
     (case accessToken h of
        None \<Rightarrow> h
      | Some token \<Rightarrow>
          if worker h \<and> ready h \<and> token \<noteq> []
          then h\<lparr>posted := posted h @ [ConnectionInit token]\<rparr>
          else h)"

text \<open>
  The effect \<^verbatim>\<open>poll to reconnect\<close> with the dependencies
  \<^verbatim>\<open>[disconnected, accessToken, worker, ready]\<close> (lines 134 to 148), and its cleanup. The
  handles of the browser's timers are positive, so a stored handle is truthy.
\<close>

definition clearInterval :: "nat \<Rightarrow> 'v hook \<Rightarrow> 'v hook" where
  "clearInterval k h = h\<lparr>intervals := filter (\<lambda>p. fst p \<noteq> k) (intervals h)\<rparr>"

definition poll_cleanup :: "'v hook \<Rightarrow> 'v hook" where
  "poll_cleanup h = (case timerRef h of None \<Rightarrow> h | Some k \<Rightarrow> clearInterval k h)"

definition poll_effect :: "'v hook \<Rightarrow> 'v hook" where
  "poll_effect h =
     (case (disconnected (state h), timerRef h) of
        (False, Some k) \<Rightarrow> clearInterval k h
      | (False, None) \<Rightarrow> h
      | (True, _) \<Rightarrow>
          (case accessToken h of
             None \<Rightarrow> h
           | Some token \<Rightarrow>
               if token \<noteq> [] \<and> worker h \<and> ready h
               then h\<lparr>timerRef := Some (nextTimer h),
                      intervals := intervals h @ [(nextTimer h, 30 * 1000, token)],
                      nextTimer := Suc (nextTimer h)\<rparr>
               else h))"

text \<open>
  The browser fires the active interval with the handle \<open>k\<close>, which stays active; its
  callback is \<^verbatim>\<open>worker.port.postMessage({ type: 'connection:init', token: accessToken })\<close>.
\<close>

definition interval_tick :: "nat \<Rightarrow> 'v hook \<Rightarrow> 'v hook" where
  "interval_tick k h =
     (case filter (\<lambda>p. fst p = k) (intervals h) of
        [] \<Rightarrow> h
      | p # _ \<Rightarrow> h\<lparr>posted := posted h @ [ConnectionInit (snd (snd p))]\<rparr>)"

text \<open>
  The effects of one render, in the order of the source: first the cleanups of the effects
  whose dependencies changed, then these effects. The three flags tell which dependency
  arrays changed: \<^verbatim>\<open>[state]\<close>, \<^verbatim>\<open>[worker, accessToken, ready]\<close> and
  \<^verbatim>\<open>[disconnected, accessToken, worker, ready]\<close>.
\<close>

definition run_effects :: "bool \<Rightarrow> bool \<Rightarrow> bool \<Rightarrow> 'v hook \<Rightarrow> 'v hook" where
  "run_effects state_changed init_changed poll_changed h =
     (let h0 = (if state_changed then status_cleanup h else h);
          h1 = (if poll_changed then poll_cleanup h0 else h0);
          h2 = (if state_changed
                then (let r = status_effect (options h1) (state h1)
                      in h1\<lparr>calls := calls h1 @ fst r, statusDestroy := snd r\<rparr>)
                else h1);
          h3 = (if init_changed then init_effect h2 else h2)
      in if poll_changed then poll_effect h3 else h3)"

text \<open>
  \<open>commit prev h\<close>: the hook \<open>h\<close> is rendered after the render of \<open>prev\<close>, and the
  dependency arrays are compared with those of \<open>prev\<close>.
\<close>

definition commit :: "'v hook \<Rightarrow> 'v hook \<Rightarrow> 'v hook" where
  "commit prev h =
     run_effects
       (stateId prev \<noteq> stateId h)
       (worker prev \<noteq> worker h \<or> accessToken prev \<noteq> accessToken h \<or> ready prev \<noteq> ready h)
       (disconnected (state prev) \<noteq> disconnected (state h) \<or>
        accessToken prev \<noteq> accessToken h \<or> worker prev \<noteq> worker h \<or> ready prev \<noteq> ready h)
       h"

text \<open>
  Mounting the hook. The first render has no state, is not ready and has no worker; all
  effects run. The effect \<^verbatim>\<open>handle init worker\<close> (lines 39 to 48) finds no worker, calls
  \<^verbatim>\<open>setReady(false)\<close> and stores a new SharedWorker, which gives a second render. From then
  on the worker is never replaced. The handles of the browser's timers start at 1.
\<close>

definition first_render :: "string option \<Rightarrow> options \<Rightarrow> 'v hook" where
  "first_render token opts =
     \<lparr>accessToken = token, options = opts, state = None, stateId = 0, ready = False,
      worker = False, emitterRef = [],
      deferreds = [\<lparr>outcome = Pending, thenTimeout = None\<rparr>], deferredRef = 0,
      timerRef = None, timeouts = [], intervals = [], nextTimer = 1,
      posted = [], calls = [], statusDestroy = ReturnsNothing, errors = []\<rparr>"

definition init_worker_effect :: "'v hook \<Rightarrow> 'v hook" where
  "init_worker_effect h = (if worker h then h else h\<lparr>ready := False, worker := True\<rparr>)"

definition mount :: "string option \<Rightarrow> options \<Rightarrow> 'v hook" where
  "mount token opts =
     (let h1 = run_effects True True True (first_render token opts)
      in commit h1 (init_worker_effect h1))"

subsection \<open>The facade (lines 151 to 163) and the tab close (lines 115 to 125)\<close>

definition send :: "string \<Rightarrow> 'v \<Rightarrow> 'v hook \<Rightarrow> 'v hook" where
  "send target args h = postMessage (Send target args) h"

definition on :: "string \<Rightarrow> nat \<Rightarrow> 'v hook \<Rightarrow> 'v hook" where
  "on target cb h =
     (let h1 = postMessage (EventRegister target) h
      in h1\<lparr>emitterRef := emitter_on target cb (emitterRef h1)\<rparr>)"

definition off :: "string \<Rightarrow> nat \<Rightarrow> 'v hook \<Rightarrow> 'v hook" where
  "off target cb h = h\<lparr>emitterRef := emitter_off target cb (emitterRef h)\<rparr>"

text \<open>
  \<^verbatim>\<open>unload\<close>: the effect that defines it has the dependencies \<^verbatim>\<open>[]\<close>, so the \<^verbatim>\<open>worker\<close> of its
  closure is the one of the first render, which is null, and \<^verbatim>\<open>worker?.port.postMessage\<close>
  posts nothing; the emitter is stopped.
\<close>

definition unload :: "'v hook \<Rightarrow> 'v hook" where
  "unload h = h\<lparr>emitterRef := emitter_stop (emitterRef h)\<rparr>"

subsection \<open>Events\<close>

text \<open>
  What can happen to a mounted hook: a message of the worker, a visibility change, a
  timeout or an interval of the browser firing (by its handle), the parent rendering the
  hook with new arguments, the application calling the facade, and the tab closing.
\<close>

datatype 'v event =
    Message "'v WorkerOutgoingMessage"
  | VisibilityChange
  | TimeoutFired nat
  | IntervalTick nat
  | Render "string option" options
  | CallSend string 'v
  | CallOn string nat
  | CallOff string nat
  | TabClose

fun handler :: "'v event \<Rightarrow> 'v hook \<Rightarrow> 'v hook" where
  "handler (Message m) h = onmessage m h"
| "handler VisibilityChange h = handleVisibilityChange h"
| "handler (TimeoutFired k) h = timeout_fired k h"
| "handler (IntervalTick k) h = interval_tick k h"
| "handler (Render token opts) h = h\<lparr>accessToken := token, options := opts\<rparr>"
| "handler (CallSend target args) h = send target args h"
| "handler (CallOn target cb) h = on target cb h"
| "handler (CallOff target cb) h = off target cb h"
| "handler TabClose h = unload h"

text \<open>
  The handlers of the events \<open>es\<close>, one after the other, with no render in between. A
  handler queues its state updates and reads no state of the last render but through the
  functional update of \<^verbatim>\<open>connection:ready\<close>, which React applies to the value that the
  updates queued before it give; so the updates are applied as they are queued.
\<close>

definition handle_all :: "'v event list \<Rightarrow> 'v hook \<Rightarrow> 'v hook" where
  "handle_all es h = foldl (\<lambda>a e. handler e a) h es"

text \<open>
  A task: React batches the state updates of the events \<open>es\<close> into one render, whose
  dependency arrays are compared with those of the render before, \<open>h\<close>. A run of tasks
  is any way React may place its renders among the events.
\<close>

definition task :: "'v hook \<Rightarrow> 'v event list \<Rightarrow> 'v hook" where
  "task h es = commit h (handle_all es h)"

definition run_tasks :: "'v hook \<Rightarrow> 'v event list list \<Rightarrow> 'v hook" where
  "run_tasks h tasks = foldl task h tasks"

text \<open>
  The task of a single event: React renders before the next event is handled. \<open>run\<close> is
  the run in which this is so for every event.
\<close>

definition step :: "'v hook \<Rightarrow> 'v event \<Rightarrow> 'v hook" where
  "step h e = task h [e]"

definition run :: "'v hook \<Rightarrow> 'v event list \<Rightarrow> 'v hook" where
  "run h es = foldl step h es"

subsection \<open>The transition table of section 4.2 of the specification\<close>

text \<open>
  The table as the specification words it, on status messages; \<open>None\<close> is the status
  \<^verbatim>\<open>unset\<close>. Messages that are not connection lifecycle events are not in the table and
  leave the status as it is.
\<close>

fun spec_transition :: "SignalState option \<Rightarrow> 'v WorkerOutgoingMessage \<Rightarrow> SignalState option" where
  "spec_transition prev ConnectionReady =
     (if map_option status prev = Some Closed \<or> map_option status prev = Some Error
      then Some \<lparr>status = Reconnected, message = None\<rparr>
      else Some \<lparr>status = Connected, message = None\<rparr>)"
| "spec_transition prev (ConnectionClosed msg) = Some \<lparr>status = Closed, message = msg\<rparr>"
| "spec_transition prev (ConnectionError msg) = Some \<lparr>status = Error, message = msg\<rparr>"
| "spec_transition prev ConnectionReconnected = Some \<lparr>status = Reconnected, message = None\<rparr>"
| "spec_transition prev ConnectionReconnecting = Some \<lparr>status = Reconnecting, message = None\<rparr>"
| "spec_transition prev WorkerReady = prev"
| "spec_transition prev (EventReceived target payload) = prev"
| "spec_transition prev Pong = prev"

text \<open>
  An application that supplies every callback, each returning nothing, for concrete runs.
\<close>

definition all_callbacks :: options where
  "all_callbacks =
     \<lparr>onConnected = Some ReturnsNothing, onReconnected = Some ReturnsNothing,
      onReconnecting = Some ReturnsNothing, onClosed = Some ReturnsNothing,
      onError = Some ReturnsNothing, onStatusChange = True\<rparr>"

subsection \<open>Notions used by the properties\<close>

text \<open>The five messages of the worker that are connection lifecycle events.\<close>

fun lifecycle :: "'v WorkerOutgoingMessage \<Rightarrow> bool" where
  "lifecycle ConnectionReady = True"
| "lifecycle (ConnectionClosed msg) = True"
| "lifecycle (ConnectionError msg) = True"
| "lifecycle ConnectionReconnected = True"
| "lifecycle ConnectionReconnecting = True"
| "lifecycle WorkerReady = False"
| "lifecycle (EventReceived target payload) = False"
| "lifecycle Pong = False"

text \<open>
  Section 4.2 of the specification on callbacks: the status-specific callback that matches
  a status message, with the optional message for \<^verbatim>\<open>onClosed\<close> and \<^verbatim>\<open>onError\<close>; and whether
  the application supplied the callback of an invocation.
\<close>

definition specific_call :: "SignalState \<Rightarrow> 'v call" where
  "specific_call s =
     (case status s of
        Connected \<Rightarrow> CallConnected
      | Reconnected \<Rightarrow> CallReconnected
      | Reconnecting \<Rightarrow> CallReconnecting
      | Closed \<Rightarrow> CallClosed (message s)
      | Error \<Rightarrow> CallError (message s))"

fun supplied :: "options \<Rightarrow> 'v call \<Rightarrow> bool" where
  "supplied opts (CallStatusChange s) = onStatusChange opts"
| "supplied opts CallConnected = (onConnected opts \<noteq> None)"
| "supplied opts CallReconnected = (onReconnected opts \<noteq> None)"
| "supplied opts CallReconnecting = (onReconnecting opts \<noteq> None)"
| "supplied opts (CallClosed msg) = (onClosed opts \<noteq> None)"
| "supplied opts (CallError msg) = (onError opts \<noteq> None)"
| "supplied opts (CallListener cb payload) = True"
| "supplied opts CallReturned = True"

fun is_status_call :: "'v call \<Rightarrow> bool" where
  "is_status_call (CallListener cb payload) = False"
| "is_status_call c = True"

fun listener_of :: "'v call \<Rightarrow> nat option" where
  "listener_of (CallListener cb payload) = Some cb"
| "listener_of c = None"

text \<open>The status message that a failed liveness probe forces.\<close>

definition worker_lost :: SignalState where
  "worker_lost = \<lparr>status = Closed, message = Some ''connection to shared worker lost''\<rparr>"

text \<open>
  A liveness probe is pending: the Deferred in \<^verbatim>\<open>deferredRef\<close> is the one of the probe that
  started the timeout \<open>k\<close>, it is not settled, and the timeout of 1000 ms has not fired.
\<close>

definition probe_pending :: "nat \<Rightarrow> 'v hook \<Rightarrow> bool" where
  "probe_pending k h =
     (deferredRef h < length (deferreds h) \<and>
      deferreds h ! deferredRef h = \<lparr>outcome = Pending, thenTimeout = Some k\<rparr> \<and>
      (k, 1000) \<in> set (timeouts h))"

text \<open>What the hook posts to the worker, and which callbacks it invokes, during one event.\<close>

definition sent :: "'v hook \<Rightarrow> 'v event \<Rightarrow> 'v WorkerIncomingMessage list" where
  "sent h e = drop (length (posted h)) (posted (step h e))"

definition invoked :: "'v hook \<Rightarrow> 'v event \<Rightarrow> 'v call list" where
  "invoked h e = drop (length (calls h)) (calls (step h e))"

definition invoked_by :: "'v hook \<Rightarrow> 'v event list \<Rightarrow> 'v call list" where
  "invoked_by h es = drop (length (calls h)) (calls (task h es))"

text \<open>
  The condition under which the effect \<^verbatim>\<open>poll to reconnect\<close> starts its interval, and the
  relation it keeps between this condition, \<^verbatim>\<open>timerRef\<close> and the active intervals.
\<close>

definition poll_condition :: "'v hook \<Rightarrow> bool" where
  "poll_condition h =
     (disconnected (state h) \<and> truthy (accessToken h) \<and> worker h \<and> ready h)"

definition poll_inv :: "'v hook \<Rightarrow> bool" where
  "poll_inv h =
     (if poll_condition h
      then (case (timerRef h, accessToken h) of
              (Some k, Some token) \<Rightarrow> intervals h = [(k, 30000, token)]
            | _ \<Rightarrow> False)
      else intervals h = [])"

text \<open>Concrete runs of a mounted hook, used as examples.\<close>

definition overlapping_probes :: "unit event list" where
  "overlapping_probes =
     [Message WorkerReady, Message ConnectionReady,
      VisibilityChange, VisibilityChange, TimeoutFired 2, Message Pong]"

definition lost_probe :: "unit event list" where
  "lost_probe = [Message WorkerReady, VisibilityChange, TimeoutFired 2]"

definition second_probe_started :: "unit event list" where
  "second_probe_started =
     [Message WorkerReady, Message ConnectionReady, VisibilityChange, VisibilityChange]"

definition second_probe_unanswered :: "unit event list" where
  "second_probe_unanswered =
     [Message WorkerReady, VisibilityChange, VisibilityChange, TimeoutFired 2,
      Message ConnectionReady, TimeoutFired 3]"

definition connected_hook :: "unit hook" where
  "connected_hook =
     run (mount (Some ''tok'') all_callbacks) [Message WorkerReady, Message ConnectionReady]"

definition closed_then_reconnecting :: "unit event list" where
  "closed_then_reconnecting =
     [Message (ConnectionClosed (Some ''x'')), Message ConnectionReconnecting]"

text \<open>An application whose status-specific callbacks all return \<open>r\<close>.\<close>

definition callbacks_returning :: "returned \<Rightarrow> options" where
  "callbacks_returning r =
     \<lparr>onConnected = Some r, onReconnected = Some r, onReconnecting = Some r,
      onClosed = Some r, onError = Some r, onStatusChange = True\<rparr>"

section \<open>Basic facts: what the effects leave alone\<close>

lemma step_commit: "step h e = commit h (handler e h)"
  by (simp add: step_def task_def handle_all_def)

lemma status_cleanup_fields:
  "state (status_cleanup h) = state h"
  "stateId (status_cleanup h) = stateId h"
  "ready (status_cleanup h) = ready h"
  "worker (status_cleanup h) = worker h"
  "accessToken (status_cleanup h) = accessToken h"
  "options (status_cleanup h) = options h"
  "emitterRef (status_cleanup h) = emitterRef h"
  "deferreds (status_cleanup h) = deferreds h"
  "deferredRef (status_cleanup h) = deferredRef h"
  "timeouts (status_cleanup h) = timeouts h"
  "posted (status_cleanup h) = posted h"
  "timerRef (status_cleanup h) = timerRef h"
  "intervals (status_cleanup h) = intervals h"
  "nextTimer (status_cleanup h) = nextTimer h"
  by (simp_all add: status_cleanup_def split: returned.split)

lemma clearInterval_fields:
  "state (clearInterval k h) = state h"
  "stateId (clearInterval k h) = stateId h"
  "ready (clearInterval k h) = ready h"
  "worker (clearInterval k h) = worker h"
  "accessToken (clearInterval k h) = accessToken h"
  "options (clearInterval k h) = options h"
  "emitterRef (clearInterval k h) = emitterRef h"
  "deferreds (clearInterval k h) = deferreds h"
  "deferredRef (clearInterval k h) = deferredRef h"
  "timeouts (clearInterval k h) = timeouts h"
  "posted (clearInterval k h) = posted h"
  "calls (clearInterval k h) = calls h"
  "timerRef (clearInterval k h) = timerRef h"
  "nextTimer (clearInterval k h) = nextTimer h"
  by (simp_all add: clearInterval_def)

lemma poll_cleanup_fields:
  "state (poll_cleanup h) = state h"
  "stateId (poll_cleanup h) = stateId h"
  "ready (poll_cleanup h) = ready h"
  "worker (poll_cleanup h) = worker h"
  "accessToken (poll_cleanup h) = accessToken h"
  "options (poll_cleanup h) = options h"
  "emitterRef (poll_cleanup h) = emitterRef h"
  "deferreds (poll_cleanup h) = deferreds h"
  "deferredRef (poll_cleanup h) = deferredRef h"
  "timeouts (poll_cleanup h) = timeouts h"
  "posted (poll_cleanup h) = posted h"
  "calls (poll_cleanup h) = calls h"
  "timerRef (poll_cleanup h) = timerRef h"
  "nextTimer (poll_cleanup h) = nextTimer h"
  by (simp_all add: poll_cleanup_def clearInterval_fields split: option.split)

lemma poll_effect_fields:
  "state (poll_effect h) = state h"
  "stateId (poll_effect h) = stateId h"
  "ready (poll_effect h) = ready h"
  "worker (poll_effect h) = worker h"
  "accessToken (poll_effect h) = accessToken h"
  "options (poll_effect h) = options h"
  "emitterRef (poll_effect h) = emitterRef h"
  "deferreds (poll_effect h) = deferreds h"
  "deferredRef (poll_effect h) = deferredRef h"
  "timeouts (poll_effect h) = timeouts h"
  "posted (poll_effect h) = posted h"
  "calls (poll_effect h) = calls h"
  by (simp_all add: poll_effect_def clearInterval_fields split: option.split bool.split)

lemma init_effect_fields:
  "state (init_effect h) = state h"
  "stateId (init_effect h) = stateId h"
  "ready (init_effect h) = ready h"
  "worker (init_effect h) = worker h"
  "accessToken (init_effect h) = accessToken h"
  "options (init_effect h) = options h"
  "emitterRef (init_effect h) = emitterRef h"
  "deferreds (init_effect h) = deferreds h"
  "deferredRef (init_effect h) = deferredRef h"
  "timeouts (init_effect h) = timeouts h"
  "calls (init_effect h) = calls h"
  "timerRef (init_effect h) = timerRef h"
  "intervals (init_effect h) = intervals h"
  "nextTimer (init_effect h) = nextTimer h"
  by (simp_all add: init_effect_def split: option.split)

lemmas effect_fields = status_cleanup_fields poll_cleanup_fields poll_effect_fields
  init_effect_fields

lemma run_effects_fields:
  "state (run_effects a b c h) = state h"
  "stateId (run_effects a b c h) = stateId h"
  "ready (run_effects a b c h) = ready h"
  "worker (run_effects a b c h) = worker h"
  "accessToken (run_effects a b c h) = accessToken h"
  "options (run_effects a b c h) = options h"
  "emitterRef (run_effects a b c h) = emitterRef h"
  "deferreds (run_effects a b c h) = deferreds h"
  "deferredRef (run_effects a b c h) = deferredRef h"
  "timeouts (run_effects a b c h) = timeouts h"
  by (simp_all add: run_effects_def Let_def effect_fields)

lemma commit_fields:
  "state (commit prev h) = state h"
  "stateId (commit prev h) = stateId h"
  "ready (commit prev h) = ready h"
  "worker (commit prev h) = worker h"
  "accessToken (commit prev h) = accessToken h"
  "options (commit prev h) = options h"
  "emitterRef (commit prev h) = emitterRef h"
  "deferreds (commit prev h) = deferreds h"
  "deferredRef (commit prev h) = deferredRef h"
  "timeouts (commit prev h) = timeouts h"
  by (simp_all add: commit_def run_effects_fields)

lemma commit_same: "commit h h = h"
  by (simp add: commit_def run_effects_def)

section \<open>The status follows the transition table\<close>

lemma state_deferred_resolve: "state (deferred_resolve h) = state h"
  by (simp add: deferred_resolve_def probe_then_def clearTimeout_def Let_def split: option.split)

lemma state_onmessage: "state (onmessage m h) = spec_transition (state h) m"
  by (cases m) (auto simp: setState_def state_deferred_resolve split: option.split)

lemma state_step_Message: "state (step h (Message m)) = spec_transition (state h) m"
  by (simp add: step_commit commit_fields state_onmessage)

lemma state_run_messages:
  "state (run h (map Message ms)) = foldl spec_transition (state h) ms"
  unfolding run_def
  by (induction ms arbitrary: h) (simp_all add: state_step_Message)

text \<open>
  C1: for every finite sequence of inbound messages, delivered in order to a hook in any
  state, the status message that the handler computes is the left fold of the transition
  table of section 4.2 over the sequence. In particular \<^verbatim>\<open>connection:ready\<close> gives
  \<^verbatim>\<open>reconnected\<close> when the previous status is \<^verbatim>\<open>closed\<close> or \<^verbatim>\<open>error\<close>, and \<^verbatim>\<open>connected\<close> in
  every other previous status, no status yet included.
\<close>

theorem status_is_fold_of_transition_table:
  "state (run h (map Message ms)) = foldl spec_transition (state h) ms
   \<and> (map_option status (state h) = Some Closed \<or> map_option status (state h) = Some Error
        \<longrightarrow> state (step h (Message ConnectionReady))
              = Some \<lparr>status = Reconnected, message = None\<rparr>)
   \<and> (map_option status (state h) \<noteq> Some Closed \<and> map_option status (state h) \<noteq> Some Error
        \<longrightarrow> state (step h (Message ConnectionReady))
              = Some \<lparr>status = Connected, message = None\<rparr>)"
  by (simp add: state_run_messages state_step_Message)

theorem status_is_fold_of_transition_table_witness:
  "state (step (setState \<lparr>status = Closed, message = None\<rparr>
                  (first_render None all_callbacks :: unit hook)) (Message ConnectionReady))
     = Some \<lparr>status = Reconnected, message = None\<rparr>
   \<and> state (step (first_render None all_callbacks :: unit hook) (Message ConnectionReady))
     = Some \<lparr>status = Connected, message = None\<rparr>
   \<and> state (run (first_render None all_callbacks :: unit hook)
         (map Message [ConnectionError (Some ''x''), Pong, ConnectionReady]))
     = Some \<lparr>status = Reconnected, message = None\<rparr>"
  using
    status_is_fold_of_transition_table
      [of "setState \<lparr>status = Closed, message = None\<rparr> (first_render None all_callbacks :: unit hook)" "[]"]
    status_is_fold_of_transition_table
      [of "first_render None all_callbacks :: unit hook"
          "[ConnectionError (Some ''x''), Pong, ConnectionReady]"]
  by (simp add: setState_def first_render_def)

section \<open>The liveness probe\<close>

lemma step_VisibilityChange_fields:
  "state (step h VisibilityChange) = state h"
  "ready (step h VisibilityChange) = ready h"
  "deferreds (step h VisibilityChange) = deferreds h @ [\<lparr>outcome = Pending, thenTimeout = Some (nextTimer h)\<rparr>]"
  "deferredRef (step h VisibilityChange) = length (deferreds h)"
  "timeouts (step h VisibilityChange) = timeouts h @ [(nextTimer h, 1000)]"
  by (simp_all add: step_commit commit_fields handleVisibilityChange_def postMessage_def Let_def)

lemma probe_pending_VisibilityChange: "probe_pending (nextTimer h) (step h VisibilityChange)"
  by (simp add: probe_pending_def step_VisibilityChange_fields)

lemma onmessage_not_Pong_fields:
  assumes "m \<noteq> Pong"
  shows "deferreds (onmessage m h) = deferreds h"
    and "deferredRef (onmessage m h) = deferredRef h"
    and "timeouts (onmessage m h) = timeouts h"
  using assms by (cases m; simp add: setState_def)+

lemma probe_pending_step_Message:
  "m \<noteq> Pong \<Longrightarrow> probe_pending k h \<Longrightarrow> probe_pending k (step h (Message m))"
  by (simp add: probe_pending_def step_commit commit_fields onmessage_not_Pong_fields)

lemma probe_pending_run_Messages:
  "Pong \<notin> set ms \<Longrightarrow> probe_pending k h \<Longrightarrow> probe_pending k (run h (map Message ms))"
  unfolding run_def
  by (induction ms arbitrary: h) (auto simp: probe_pending_step_Message)

lemma deferred_resolve_pending:
  assumes "probe_pending k h"
  shows "ready (deferred_resolve h)" and "k \<notin> fst ` set (timeouts (deferred_resolve h))"
  using assms
  by (auto simp: probe_pending_def deferred_resolve_def probe_then_def clearTimeout_def Let_def)

lemma deferred_resolve_live:
  assumes "ready h" and "k \<notin> fst ` set (timeouts h)"
  shows "ready (deferred_resolve h)" and "k \<notin> fst ` set (timeouts (deferred_resolve h))"
  using assms
  by (auto simp: deferred_resolve_def probe_then_def clearTimeout_def Let_def
      split: option.split)

lemma onmessage_live:
  assumes "ready h" and "k \<notin> fst ` set (timeouts h)"
  shows "ready (onmessage m h)" and "k \<notin> fst ` set (timeouts (onmessage m h))"
  using assms by (cases m; simp add: setState_def deferred_resolve_live)+

lemma run_Messages_live:
  "ready h \<Longrightarrow> k \<notin> fst ` set (timeouts h) \<Longrightarrow>
     ready (run h (map Message ms)) \<and> k \<notin> fst ` set (timeouts (run h (map Message ms)))"
  unfolding run_def
  by (induction ms arbitrary: h) (simp_all add: step_commit commit_fields onmessage_live)

lemma probe_answered:
  "Pong \<in> set ms \<Longrightarrow> probe_pending k h \<Longrightarrow>
     ready (run h (map Message ms)) \<and> k \<notin> fst ` set (timeouts (run h (map Message ms)))"
proof (induction ms arbitrary: h)
  case Nil
  then show ?case by simp
next
  case (Cons m ms)
  show ?case
  proof (cases "m = Pong")
    case True
    have "ready (step h (Message m))" and "k \<notin> fst ` set (timeouts (step h (Message m)))"
      using True Cons.prems(2) by (simp_all add: step_commit commit_fields deferred_resolve_pending)
    then show ?thesis
      using run_Messages_live [of "step h (Message m)" k ms] by (simp add: run_def)
  next
    case False
    then have "Pong \<in> set ms" using Cons.prems(1) by auto
    moreover have "probe_pending k (step h (Message m))"
      using False Cons.prems(2) by (rule probe_pending_step_Message)
    ultimately show ?thesis
      using Cons.IH [of "step h (Message m)"] by (simp add: run_def)
  qed
qed

lemma deferred_reject_pending:
  assumes "deferredRef h < length (deferreds h)"
    and "deferreds h ! deferredRef h = \<lparr>outcome = Pending, thenTimeout = Some k\<rparr>"
  shows "state (deferred_reject h) = Some worker_lost" and "\<not> ready (deferred_reject h)"
    and "stateId (deferred_reject h) = Suc (stateId h)"
  using assms
  by (simp_all add: deferred_reject_def probe_catch_def setState_def worker_lost_def Let_def)

lemma timeout_fired_pending:
  assumes "probe_pending k h"
  shows "state (timeout_fired k h) = Some worker_lost" and "\<not> ready (timeout_fired k h)"
    and "stateId (timeout_fired k h) = Suc (stateId h)"
proof -
  have "k \<in> fst ` set (timeouts h)"
    using assms by (force simp: probe_pending_def)
  moreover have "deferreds (clearTimeout k h) = deferreds h"
    "deferredRef (clearTimeout k h) = deferredRef h" "stateId (clearTimeout k h) = stateId h"
    by (simp_all add: clearTimeout_def)
  ultimately show "state (timeout_fired k h) = Some worker_lost"
    and "\<not> ready (timeout_fired k h)" and "stateId (timeout_fired k h) = Suc (stateId h)"
    using assms deferred_reject_pending [of "clearTimeout k h" k]
    by (simp_all add: probe_pending_def timeout_fired_def)
qed

lemma timeout_fired_cleared: "k \<notin> fst ` set (timeouts h) \<Longrightarrow> timeout_fired k h = h"
  by (simp add: timeout_fired_def)

lemma run_append: "run h (es @ fs) = run (run h es) fs"
  by (simp add: run_def)

lemma run_single: "run h [e] = step h e"
  by (simp add: run_def)

text \<open>
  A liveness probe on its own. A visibility change starts a probe, in any state of the
  hook, with a timeout of 1000 ms (handle \<open>nextTimer h\<close>); \<open>ms\<close> are the messages that the
  worker delivers before this timeout would fire, and nothing else happens in between: no
  other probe starts and no other timeout fires. If a \<^verbatim>\<open>pong\<close> is among them, the status
  message is the one the same messages give without the probe (unchanged when the \<^verbatim>\<open>pong\<close>
  comes alone), the transport is marked ready, and the timeout is cleared: it is no longer
  pending and its firing changes nothing. If no \<^verbatim>\<open>pong\<close> is among them and the timeout
  fires, the transport is marked not ready and the status is \<^verbatim>\<open>closed\<close> with the message
  "connection to shared worker lost", whatever the status was.
\<close>

lemma isolated_liveness_probe:
  "timeouts (step h VisibilityChange) = timeouts h @ [(nextTimer h, 1000)]
   \<and> (Pong \<in> set ms \<longrightarrow>
      state (run (step h VisibilityChange) (map Message ms)) = state (run h (map Message ms))
      \<and> ready (run (step h VisibilityChange) (map Message ms))
      \<and> nextTimer h \<notin> fst ` set (timeouts (run (step h VisibilityChange) (map Message ms)))
      \<and> step (run (step h VisibilityChange) (map Message ms)) (TimeoutFired (nextTimer h))
          = run (step h VisibilityChange) (map Message ms))
   \<and> state (step (step h VisibilityChange) (Message Pong)) = state h
   \<and> (Pong \<notin> set ms \<longrightarrow>
      state (run (step h VisibilityChange) (map Message ms @ [TimeoutFired (nextTimer h)]))
        = Some \<lparr>status = Closed, message = Some ''connection to shared worker lost''\<rparr>
      \<and> \<not> ready (run (step h VisibilityChange) (map Message ms @ [TimeoutFired (nextTimer h)])))"
proof -
  let ?h1 = "step h VisibilityChange"
  let ?k = "nextTimer h"
  have pend: "probe_pending ?k ?h1" by (rule probe_pending_VisibilityChange)
  have same: "state (run ?h1 (map Message ms)) = state (run h (map Message ms))"
    by (simp add: state_run_messages step_VisibilityChange_fields)
  have pong: "state (step ?h1 (Message Pong)) = state h"
    by (simp add: state_step_Message step_VisibilityChange_fields)
  have answered: "ready (run ?h1 (map Message ms))
      \<and> ?k \<notin> fst ` set (timeouts (run ?h1 (map Message ms)))
      \<and> step (run ?h1 (map Message ms)) (TimeoutFired ?k) = run ?h1 (map Message ms)"
    if "Pong \<in> set ms"
    using probe_answered [OF that pend]
    by (simp add: step_commit timeout_fired_cleared commit_same)
  have lost: "state (run ?h1 (map Message ms @ [TimeoutFired ?k])) = Some worker_lost
      \<and> \<not> ready (run ?h1 (map Message ms @ [TimeoutFired ?k]))"
    if "Pong \<notin> set ms"
    using probe_pending_run_Messages [OF that pend]
    by (simp add: run_append run_single step_commit commit_fields timeout_fired_pending)
  have started: "timeouts ?h1 = timeouts h @ [(?k, 1000)]"
    by (rule step_VisibilityChange_fields)
  show ?thesis
    using started same pong answered lost by (simp add: worker_lost_def)
qed

section \<open>The mounted hook\<close>

lemma init_effect_idle: "\<not> (worker h \<and> ready h) \<Longrightarrow> init_effect h = h"
  by (cases "accessToken h") (auto simp: init_effect_def)

lemma poll_effect_idle:
  "disconnected (state h) \<Longrightarrow> \<not> (worker h \<and> ready h) \<Longrightarrow> poll_effect h = h"
  by (cases "accessToken h") (auto simp: poll_effect_def)

lemma poll_cleanup_idle: "timerRef h = None \<Longrightarrow> poll_cleanup h = h"
  by (simp add: poll_cleanup_def)

lemma first_render_fields:
  "state (first_render token opts) = None"
  "timerRef (first_render token opts) = None"
  "worker (first_render token opts) = False"
  "ready (first_render token opts) = False"
  "calls (first_render token opts) = []"
  "statusDestroy (first_render token opts) = ReturnsNothing"
  by (simp_all add: first_render_def)

lemma first_effects:
  "run_effects True True True (first_render token opts) = first_render token opts"
  by (simp add: run_effects_def Let_def status_cleanup_def poll_cleanup_idle init_effect_idle
      poll_effect_idle first_render_fields status_effect_def disconnected_def)

lemma mount_eq:
  "mount token opts =
     \<lparr>accessToken = token, options = opts, state = None, stateId = 0, ready = False,
      worker = True, emitterRef = [],
      deferreds = [\<lparr>outcome = Pending, thenTimeout = None\<rparr>], deferredRef = 0,
      timerRef = None, timeouts = [], intervals = [], nextTimer = 1,
      posted = [], calls = [], statusDestroy = ReturnsNothing, errors = []\<rparr>"
proof -
  let ?h2 = "(first_render token opts :: 'a hook)\<lparr>ready := False, worker := True\<rparr>"
  have "mount token opts = commit (first_render token opts) ?h2"
    by (simp add: mount_def Let_def first_effects init_worker_effect_def first_render_fields)
  also have "\<dots> = ?h2"
    by (simp add: commit_def run_effects_def Let_def poll_cleanup_idle init_effect_idle
        poll_effect_idle first_render_fields disconnected_def)
  also have "\<dots> = \<lparr>accessToken = token, options = opts, state = None, stateId = 0, ready = False,
      worker = True, emitterRef = [],
      deferreds = [\<lparr>outcome = Pending, thenTimeout = None\<rparr>], deferredRef = 0,
      timerRef = None, timeouts = [], intervals = [], nextTimer = 1,
      posted = [], calls = [], statusDestroy = ReturnsNothing, errors = []\<rparr>"
    by (simp add: first_render_def)
  finally show ?thesis .
qed


lemma mount_fields:
  "accessToken (mount token opts) = token"
  "options (mount token opts) = opts"
  "state (mount token opts) = None"
  "ready (mount token opts) = False"
  "worker (mount token opts) = True"
  "timerRef (mount token opts) = None"
  "intervals (mount token opts) = []"
  "nextTimer (mount token opts) = 1"
  "posted (mount token opts) = []"
  "calls (mount token opts) = []"
  "statusDestroy (mount token opts) = ReturnsNothing"
  by (simp_all add: mount_eq)

section \<open>Overlapping liveness probes\<close>

text \<open>
  C2, which the code breaks for a probe that overlaps an earlier one. In the run
  \<open>second_probe_started\<close> the hook is connected and ready and two probes are pending, with
  the timeouts 2 and 3. The timeout of the first probe then fires and a \<^verbatim>\<open>pong\<close> arrives
  while the timeout of the second probe is still pending, that is within its 1000 ms:
  the status has changed to \<^verbatim>\<open>closed\<close> and the transport is not marked ready. In the run
  \<open>second_probe_unanswered\<close> no \<^verbatim>\<open>pong\<close> arrives at all and \<^verbatim>\<open>connection:ready\<close> comes between
  the two timeouts: when the timeout of the second probe fires, the status is not forced
  to \<^verbatim>\<open>closed\<close>, it stays \<^verbatim>\<open>reconnected\<close>.
\<close>

theorem overlapping_probe_breaks_liveness:
  "state (run (mount (Some ''tok'') all_callbacks) second_probe_started)
     = Some \<lparr>status = Connected, message = None\<rparr>
   \<and> ready (run (mount (Some ''tok'') all_callbacks) second_probe_started) = True
   \<and> timeouts (run (mount (Some ''tok'') all_callbacks) second_probe_started)
       = [(2, 1000), (3, 1000)]
   \<and> timeouts (run (mount (Some ''tok'') all_callbacks)
         (second_probe_started @ [TimeoutFired 2, Message Pong])) = [(3, 1000)]
   \<and> state (run (mount (Some ''tok'') all_callbacks)
         (second_probe_started @ [TimeoutFired 2, Message Pong]))
       = Some \<lparr>status = Closed, message = Some ''connection to shared worker lost''\<rparr>
   \<and> ready (run (mount (Some ''tok'') all_callbacks)
         (second_probe_started @ [TimeoutFired 2, Message Pong])) = False
   \<and> timeouts (run (mount (Some ''tok'') all_callbacks) second_probe_unanswered) = []
   \<and> state (run (mount (Some ''tok'') all_callbacks) second_probe_unanswered)
       = Some \<lparr>status = Reconnected, message = None\<rparr>"
  by code_simp

text \<open>
  C3: two visibility changes follow each other before the timeout of the first probe
  (handle 2) fires; the timeout of the second probe has handle 3. When the first timeout
  fires it rejects the Deferred that \<^verbatim>\<open>deferredRef\<close> holds then, which is the one of the second
  probe (address 2): the status is forced to \<^verbatim>\<open>closed\<close> and the transport is marked not
  ready, the \<^verbatim>\<open>pong\<close> that follows is ignored, and the second timeout is still pending.
  The Deferred of the first probe (address 1) is never settled. Without the first
  timeout the same run ends connected and ready.
\<close>

theorem stale_timeout_rejects_newer_latch:
  "state (run (mount (Some ''tok'') all_callbacks) overlapping_probes)
     = Some \<lparr>status = Closed, message = Some ''connection to shared worker lost''\<rparr>
   \<and> ready (run (mount (Some ''tok'') all_callbacks) overlapping_probes) = False
   \<and> deferredRef (run (mount (Some ''tok'') all_callbacks) overlapping_probes) = 2
   \<and> map outcome (deferreds (run (mount (Some ''tok'') all_callbacks) overlapping_probes))
       = [Pending, Pending, Rejected]
   \<and> timeouts (run (mount (Some ''tok'') all_callbacks) overlapping_probes) = [(3, 1000)]
   \<and> state (run (mount (Some ''tok'') all_callbacks) (remove1 (TimeoutFired 2) overlapping_probes))
       = Some \<lparr>status = Connected, message = None\<rparr>
   \<and> ready (run (mount (Some ''tok'') all_callbacks) (remove1 (TimeoutFired 2) overlapping_probes))
       = True"
  by code_simp

section \<open>Handlers that leave the status alone\<close>

lemma handleVisibilityChange_keeps:
  "state (handleVisibilityChange h) = state h"
  "stateId (handleVisibilityChange h) = stateId h"
  "calls (handleVisibilityChange h) = calls h"
  "emitterRef (handleVisibilityChange h) = emitterRef h"
  by (simp_all add: handleVisibilityChange_def postMessage_def Let_def)

lemma interval_tick_keeps:
  "state (interval_tick k h) = state h"
  "stateId (interval_tick k h) = stateId h"
  "calls (interval_tick k h) = calls h"
  "emitterRef (interval_tick k h) = emitterRef h"
  by (simp_all add: interval_tick_def split: list.split)

lemma send_keeps:
  "state (send target args h) = state h"
  "stateId (send target args h) = stateId h"
  "calls (send target args h) = calls h"
  "emitterRef (send target args h) = emitterRef h"
  by (simp_all add: send_def postMessage_def)

lemma on_keeps:
  "state (on target cb h) = state h"
  "stateId (on target cb h) = stateId h"
  "calls (on target cb h) = calls h"
  "emitterRef (on target cb h) = emitter_on target cb (emitterRef h)"
  by (simp_all add: on_def postMessage_def Let_def)

lemma off_keeps:
  "state (off target cb h) = state h"
  "stateId (off target cb h) = stateId h"
  "calls (off target cb h) = calls h"
  "emitterRef (off target cb h) = emitter_off target cb (emitterRef h)"
  by (simp_all add: off_def)

lemma unload_keeps:
  "state (unload h) = state h"
  "stateId (unload h) = stateId h"
  "calls (unload h) = calls h"
  "emitterRef (unload h) = emitter_stop (emitterRef h)"
  by (simp_all add: unload_def)

lemmas facade_keeps = handleVisibilityChange_keeps interval_tick_keeps send_keeps on_keeps
  off_keeps unload_keeps

lemma deferred_resolve_quiet:
  "stateId (deferred_resolve h) = stateId h"
  "calls (deferred_resolve h) = calls h"
  "emitterRef (deferred_resolve h) = emitterRef h"
  by (simp_all add: deferred_resolve_def probe_then_def clearTimeout_def Let_def
      split: option.split)

lemma deferred_reject_emitterRef: "emitterRef (deferred_reject h) = emitterRef h"
  by (simp add: deferred_reject_def probe_catch_def setState_def Let_def split: option.split)

lemma deferred_reject_unset:
  assumes "state (deferred_reject h) = None"
  shows "state h = None \<and> stateId (deferred_reject h) = stateId h"
  using assms
  by (auto simp: deferred_reject_def probe_catch_def setState_def Let_def
      split: if_splits option.splits)

lemma timeout_fired_unset:
  assumes "state (timeout_fired k h) = None"
  shows "state h = None \<and> stateId (timeout_fired k h) = stateId h"
proof (cases "k \<in> fst ` set (timeouts h)")
  case True
  then show ?thesis
    using assms deferred_reject_unset [of "clearTimeout k h"]
    by (simp add: timeout_fired_def) (simp add: clearTimeout_def)
next
  case False
  then show ?thesis
    using assms by (simp add: timeout_fired_def)
qed

lemma onmessage_unset:
  assumes "state (onmessage m h) = None"
  shows "state h = None \<and> stateId (onmessage m h) = stateId h"
  using assms
  by (cases m) (simp_all add: setState_def state_deferred_resolve deferred_resolve_quiet)

lemma handler_unset:
  assumes "state (handler e h) = None"
  shows "state h = None \<and> stateId (handler e h) = stateId h"
proof (cases e)
  case (Message m)
  then show ?thesis
    using assms onmessage_unset [of m h] by simp
next
  case (TimeoutFired k)
  then show ?thesis
    using assms timeout_fired_unset [of k h] by simp
qed (use assms in \<open>simp_all add: facade_keeps\<close>)

section \<open>What a render invokes and posts\<close>

lemma calls_commit:
  "calls (commit prev h) =
     calls h @
     (if stateId prev \<noteq> stateId h
      then (if statusDestroy h = ReturnsFunction then [CallReturned] else []) @
           fst (status_effect (options h) (state h))
      else [])"
  by (simp add: commit_def run_effects_def Let_def effect_fields)
     (simp add: status_cleanup_def split: returned.split)

lemma posted_init_effect:
  "posted (init_effect h) =
     posted h @ (if worker h \<and> ready h \<and> truthy (accessToken h)
                 then [ConnectionInit (the (accessToken h))] else [])"
  by (simp add: init_effect_def truthy_def split: option.split)

lemma posted_commit:
  "posted (commit prev h) =
     posted h @
     (if (worker prev \<noteq> worker h \<or> accessToken prev \<noteq> accessToken h \<or> ready prev \<noteq> ready h)
         \<and> worker h \<and> ready h \<and> truthy (accessToken h)
      then [ConnectionInit (the (accessToken h))] else [])"
  by (simp add: commit_def run_effects_def Let_def effect_fields posted_init_effect)

lemma status_effect_Some:
  "fst (status_effect opts (Some s))
     = filter (supplied opts) [CallStatusChange s, specific_call s]"
  by (cases "status s")
     (auto simp: status_effect_def specific_call_def optional_call_def Let_def
        split: option.split)

lemma status_effect_all_callbacks:
  "fst (status_effect all_callbacks (Some s)) = [CallStatusChange s, specific_call s]"
  by (cases "status s")
     (simp_all add: status_effect_def specific_call_def optional_call_def all_callbacks_def)

lemma calls_task:
  assumes "statusDestroy (handle_all es h) = ReturnsNothing"
  shows "calls (task h es) =
     calls (handle_all es h) @
     (if stateId (handle_all es h) = stateId h then []
      else fst (status_effect (options (handle_all es h)) (state (handle_all es h))))"
  using assms by (simp add: task_def calls_commit)

lemma onmessage_lifecycle:
  assumes "lifecycle m"
  shows "calls (onmessage m h) = calls h"
    and "stateId (onmessage m h) = Suc (stateId h)"
    and "options (onmessage m h) = options h"
    and "state (onmessage m h) \<noteq> None"
    and "statusDestroy (onmessage m h) = statusDestroy h"
  using assms by (cases m; simp add: setState_def)+

lemma invoked_lifecycle:
  assumes "lifecycle m" and "statusDestroy h = ReturnsNothing"
  shows "invoked h (Message m) = fst (status_effect (options h) (state (step h (Message m))))"
  using assms
  by (simp add: invoked_def step_commit calls_commit commit_fields onmessage_lifecycle)

lemma deferred_reject_keeps:
  "calls (deferred_reject h) = calls h"
  "options (deferred_reject h) = options h"
  "statusDestroy (deferred_reject h) = statusDestroy h"
  by (simp_all add: deferred_reject_def probe_catch_def setState_def Let_def split: option.split)

lemma timeout_fired_keeps:
  "calls (timeout_fired k h) = calls h"
  "options (timeout_fired k h) = options h"
  "statusDestroy (timeout_fired k h) = statusDestroy h"
  by (simp_all add: timeout_fired_def clearTimeout_def deferred_reject_keeps)

lemma invoked_timeout:
  assumes "probe_pending k h" and "statusDestroy h = ReturnsNothing"
  shows "invoked h (TimeoutFired k) = fst (status_effect (options h) (Some worker_lost))"
  using assms
  by (simp add: invoked_def step_commit calls_commit timeout_fired_keeps timeout_fired_pending)

lemma handler_statusDestroy: "statusDestroy (handler e h) = statusDestroy h"
proof (cases e)
  case (Message m)
  then show ?thesis
    by (cases m)
       (simp_all add: setState_def deferred_resolve_def probe_then_def clearTimeout_def Let_def
          split: option.split)
qed (simp_all add: handleVisibilityChange_def postMessage_def Let_def timeout_fired_keeps
      interval_tick_def send_def on_def off_def unload_def split: list.split)

lemma handle_all_statusDestroy: "statusDestroy (handle_all es h) = statusDestroy h"
  unfolding handle_all_def
  by (induction es arbitrary: h) (simp_all add: handler_statusDestroy)

lemma handle_all_state_set:
  "stateId (handle_all es h) \<noteq> stateId h \<Longrightarrow> state (handle_all es h) \<noteq> None"
proof (induction es rule: rev_induct)
  case Nil
  then show ?case by (simp add: handle_all_def)
next
  case (snoc e es)
  let ?a = "handle_all es h"
  have last: "handle_all (es @ [e]) h = handler e ?a"
    by (simp add: handle_all_def)
  show ?case
  proof (cases "state (handler e ?a) = None")
    case True
    have "state ?a = None \<and> stateId (handler e ?a) = stateId ?a"
      using True by (rule handler_unset)
    then show ?thesis
      using snoc.IH snoc.prems last by auto
  next
    case False
    then show ?thesis by (simp add: last)
  qed
qed

text \<open>
  C4, as the code has it: the effect on \<^verbatim>\<open>[state]\<close> invokes \<^verbatim>\<open>onStatusChange\<close> with the whole
  status message and then the one status-specific callback that matches the status, with
  the message of the status for \<^verbatim>\<open>onClosed\<close> and \<^verbatim>\<open>onError\<close>; a callback that the application
  did not supply is left out. The effect runs once for each render in which the status
  message has changed, whatever events the task before the render handled: beyond the
  listeners that the handlers invoked, the task invokes these callbacks for the last
  status message set in it, and none for the status messages set before that one. A
  connection lifecycle message, or the timeout of a pending liveness probe, that is
  rendered on its own invokes them for the status message it produces. The callback
  invoked for the status message before returned nothing.
\<close>

theorem status_callbacks_per_render:
  "fst (status_effect opts (Some s)) = filter (supplied opts) [CallStatusChange s, specific_call s]
   \<and> fst (status_effect all_callbacks (Some s)) = [CallStatusChange s, specific_call s]
   \<and> (statusDestroy h = ReturnsNothing \<longrightarrow>
        stateId (handle_all es h) = stateId h \<longrightarrow> calls (task h es) = calls (handle_all es h))
   \<and> (statusDestroy h = ReturnsNothing \<longrightarrow>
        stateId (handle_all es h) \<noteq> stateId h \<longrightarrow>
        (\<exists>s'. state (task h es) = Some s' \<and>
              calls (task h es)
                = calls (handle_all es h) @
                  filter (supplied (options (task h es))) [CallStatusChange s', specific_call s']))
   \<and> (statusDestroy h = ReturnsNothing \<and> lifecycle m \<longrightarrow>
        (\<exists>s'. state (step h (Message m)) = Some s' \<and>
              invoked h (Message m)
                = filter (supplied (options h)) [CallStatusChange s', specific_call s']))
   \<and> (statusDestroy h = ReturnsNothing \<and> probe_pending k h \<longrightarrow>
        state (step h (TimeoutFired k)) = Some worker_lost \<and>
        invoked h (TimeoutFired k)
          = filter (supplied (options h))
              [CallStatusChange worker_lost, CallClosed (Some ''connection to shared worker lost'')])"
proof -
  have same: "calls (task h es) = calls (handle_all es h)"
    if "statusDestroy h = ReturnsNothing" "stateId (handle_all es h) = stateId h"
    using that calls_task [of es h] by (simp add: handle_all_statusDestroy)
  have changed: "\<exists>s'. state (task h es) = Some s' \<and>
      calls (task h es) = calls (handle_all es h) @
        filter (supplied (options (task h es))) [CallStatusChange s', specific_call s']"
    if "statusDestroy h = ReturnsNothing" "stateId (handle_all es h) \<noteq> stateId h"
  proof -
    have "state (handle_all es h) \<noteq> None"
      using that(2) by (rule handle_all_state_set)
    then obtain s' where s': "state (handle_all es h) = Some s'" by auto
    have "calls (task h es) = calls (handle_all es h) @
        fst (status_effect (options (handle_all es h)) (Some s'))"
      using that calls_task [of es h] s' by (simp add: handle_all_statusDestroy)
    then show ?thesis
      using s' by (simp add: task_def commit_fields status_effect_Some)
  qed
  have life: "\<exists>s'. state (step h (Message m)) = Some s' \<and>
      invoked h (Message m) = filter (supplied (options h)) [CallStatusChange s', specific_call s']"
    if "statusDestroy h = ReturnsNothing" "lifecycle m"
  proof -
    have "state (step h (Message m)) \<noteq> None"
      using that by (simp add: step_commit commit_fields onmessage_lifecycle)
    then obtain s' where s': "state (step h (Message m)) = Some s'" by auto
    then show ?thesis
      using invoked_lifecycle [OF that(2) that(1)] by (simp add: status_effect_Some)
  qed
  have lost: "state (step h (TimeoutFired k)) = Some worker_lost \<and>
      invoked h (TimeoutFired k) = filter (supplied (options h))
        [CallStatusChange worker_lost, CallClosed (Some ''connection to shared worker lost'')]"
    if "statusDestroy h = ReturnsNothing" "probe_pending k h"
    using that invoked_timeout [OF that(2) that(1)]
    by (simp add: step_commit commit_fields timeout_fired_pending status_effect_Some
        specific_call_def worker_lost_def)
  show ?thesis
    using status_effect_Some [of opts s] status_effect_all_callbacks [of s]
      same changed life lost
    by blast
qed

theorem status_callbacks_per_render_witness:
  "calls (task connected_hook closed_then_reconnecting)
     = calls (handle_all closed_then_reconnecting connected_hook) @
       [CallStatusChange \<lparr>status = Reconnecting, message = None\<rparr>, CallReconnecting]
   \<and> calls (task connected_hook [CallSend ''chat'' ()])
     = calls (handle_all [CallSend ''chat'' ()] connected_hook)
   \<and> invoked connected_hook (Message (ConnectionError (Some ''x'')))
     = [CallStatusChange \<lparr>status = Error, message = Some ''x''\<rparr>, CallError (Some ''x'')]
   \<and> invoked (step connected_hook VisibilityChange) (TimeoutFired 2)
     = [CallStatusChange worker_lost, CallClosed (Some ''connection to shared worker lost'')]"
proof -
  let ?h = connected_hook
  let ?es = closed_then_reconnecting
  have quiet: "statusDestroy ?h = ReturnsNothing"
    "statusDestroy (step ?h VisibilityChange) = ReturnsNothing"
    by code_simp+
  have set: "stateId (handle_all ?es ?h) \<noteq> stateId ?h"
    by code_simp
  have unset: "stateId (handle_all [CallSend ''chat'' ()] ?h) = stateId ?h"
    by code_simp
  have life: "lifecycle (ConnectionError (Some ''x'') :: unit WorkerOutgoingMessage)" by simp
  have pend: "probe_pending 2 (step ?h VisibilityChange)"
    by code_simp
  have opts: "options ?h = all_callbacks" "options (task ?h ?es) = all_callbacks"
    "options (step ?h VisibilityChange) = all_callbacks"
    by code_simp+
  have sup: "filter (supplied all_callbacks) [CallStatusChange s, specific_call s :: unit call]
      = [CallStatusChange s, specific_call s]" for s
    by (cases "status s") (simp_all add: all_callbacks_def specific_call_def)
  have st: "state (task ?h ?es) = Some \<lparr>status = Reconnecting, message = None\<rparr>"
    "state (step ?h (Message (ConnectionError (Some ''x''))))
      = Some \<lparr>status = Error, message = Some ''x''\<rparr>"
    by code_simp+
  have "\<exists>s'. state (task ?h ?es) = Some s' \<and>
      calls (task ?h ?es) = calls (handle_all ?es ?h) @
        filter (supplied (options (task ?h ?es))) [CallStatusChange s', specific_call s']"
    using status_callbacks_per_render
        [of all_callbacks worker_lost ?h ?es "ConnectionError (Some ''x'')" 2] quiet(1) set
    by blast
  then obtain s1 where s1: "state (task ?h ?es) = Some s1"
    and c1: "calls (task ?h ?es) = calls (handle_all ?es ?h) @
        filter (supplied (options (task ?h ?es))) [CallStatusChange s1, specific_call s1]"
    by blast
  have "s1 = \<lparr>status = Reconnecting, message = None\<rparr>"
    using s1 st(1) by simp
  then have first: "calls (task ?h ?es) = calls (handle_all ?es ?h) @
      [CallStatusChange \<lparr>status = Reconnecting, message = None\<rparr>, CallReconnecting]"
    using c1 by (simp only: opts sup) (simp add: specific_call_def)
  have second: "calls (task ?h [CallSend ''chat'' ()]) = calls (handle_all [CallSend ''chat'' ()] ?h)"
    using status_callbacks_per_render
        [of all_callbacks worker_lost ?h "[CallSend ''chat'' ()]" "ConnectionError (Some ''x'')" 2]
      quiet(1) unset
    by blast
  have "\<exists>s'. state (step ?h (Message (ConnectionError (Some ''x'')))) = Some s' \<and>
      invoked ?h (Message (ConnectionError (Some ''x'')))
        = filter (supplied (options ?h)) [CallStatusChange s', specific_call s']"
    using status_callbacks_per_render
        [of all_callbacks worker_lost ?h ?es "ConnectionError (Some ''x'')" 2] quiet(1) life
    by blast
  then obtain s2 where s2: "state (step ?h (Message (ConnectionError (Some ''x'')))) = Some s2"
    and c2: "invoked ?h (Message (ConnectionError (Some ''x'')))
        = filter (supplied (options ?h)) [CallStatusChange s2, specific_call s2]"
    by blast
  have "s2 = \<lparr>status = Error, message = Some ''x''\<rparr>"
    using s2 st(2) by simp
  then have third: "invoked ?h (Message (ConnectionError (Some ''x'')))
      = [CallStatusChange \<lparr>status = Error, message = Some ''x''\<rparr>, CallError (Some ''x'')]"
    using c2 by (simp only: opts sup) (simp add: specific_call_def)
  have "invoked (step ?h VisibilityChange) (TimeoutFired 2)
      = filter (supplied (options (step ?h VisibilityChange)))
          [CallStatusChange worker_lost, CallClosed (Some ''connection to shared worker lost'')]"
    using status_callbacks_per_render
        [of all_callbacks worker_lost "step ?h VisibilityChange" ?es
            "ConnectionError (Some ''x'')" 2]
      quiet(2) pend
    by blast
  then have fourth: "invoked (step ?h VisibilityChange) (TimeoutFired 2)
      = [CallStatusChange worker_lost, CallClosed (Some ''connection to shared worker lost'')]"
    by (simp only: opts) (simp add: all_callbacks_def)
  show ?thesis
    using first second third fourth by simp
qed

text \<open>
  The run \<open>closed_then_reconnecting\<close> on a connected hook: \<^verbatim>\<open>connection:closed\<close> and
  \<^verbatim>\<open>connection:reconnecting\<close> are handled in one task. The status \<^verbatim>\<open>closed\<close> is entered, but
  neither \<^verbatim>\<open>onStatusChange\<close> nor \<^verbatim>\<open>onClosed\<close> is invoked for it: the render invokes the
  callbacks of \<^verbatim>\<open>reconnecting\<close> only.
\<close>

theorem batched_status_invokes_no_callback:
  "state (handle_all [Message (ConnectionClosed (Some ''x''))] connected_hook)
     = Some \<lparr>status = Closed, message = Some ''x''\<rparr>
   \<and> invoked_by connected_hook closed_then_reconnecting
     = [CallStatusChange \<lparr>status = Reconnecting, message = None\<rparr>, CallReconnecting]"
  by code_simp

text \<open>
  What the value of a status-specific callback does, being returned by the effect. When
  the callbacks return a function, React invokes the function returned for \<^verbatim>\<open>connected\<close>
  before the callbacks of the next status; when they return another value, the next
  change of the status raises a TypeError inside React, which goes on and invokes the
  callbacks of the new status.
\<close>

lemma returned_function_is_invoked:
  "calls (run (mount None (callbacks_returning ReturnsFunction) :: unit hook)
       [Message ConnectionReady, Message ConnectionReconnecting])
     = [CallStatusChange \<lparr>status = Connected, message = None\<rparr>, CallConnected,
        CallReturned,
        CallStatusChange \<lparr>status = Reconnecting, message = None\<rparr>, CallReconnecting]"
  by code_simp

lemma returned_value_raises:
  "errors (run (mount None (callbacks_returning ReturnsValue) :: unit hook)
       [Message ConnectionReady]) = []
   \<and> errors (run (mount None (callbacks_returning ReturnsValue) :: unit hook)
       [Message ConnectionReady, Message ConnectionReconnecting]) = [TypeError]
   \<and> calls (run (mount None (callbacks_returning ReturnsValue) :: unit hook)
       [Message ConnectionReady, Message ConnectionReconnecting])
     = [CallStatusChange \<lparr>status = Connected, message = None\<rparr>, CallConnected,
        CallStatusChange \<lparr>status = Reconnecting, message = None\<rparr>, CallReconnecting]"
  by code_simp

section \<open>The reconnect interval\<close>

lemma commit_unchanged:
  assumes "stateId h' = stateId h" and "state h' = state h" and "worker h' = worker h"
    and "accessToken h' = accessToken h" and "ready h' = ready h"
  shows "commit h h' = h'"
  using assms by (simp add: commit_def run_effects_def)

lemma deferred_resolve_keeps:
  "intervals (deferred_resolve h) = intervals h"
  "timerRef (deferred_resolve h) = timerRef h"
  "worker (deferred_resolve h) = worker h"
  "posted (deferred_resolve h) = posted h"
  "accessToken (deferred_resolve h) = accessToken h"
  by (simp_all add: deferred_resolve_def probe_then_def clearTimeout_def Let_def
      split: option.split)

lemma deferred_reject_keeps_timer:
  "intervals (deferred_reject h) = intervals h"
  "timerRef (deferred_reject h) = timerRef h"
  "worker (deferred_reject h) = worker h"
  "posted (deferred_reject h) = posted h"
  "accessToken (deferred_reject h) = accessToken h"
  by (simp_all add: deferred_reject_def probe_catch_def setState_def Let_def split: option.split)

lemma onmessage_keeps:
  "intervals (onmessage m h) = intervals h"
  "timerRef (onmessage m h) = timerRef h"
  "worker (onmessage m h) = worker h"
  "posted (onmessage m h) = posted h"
  "accessToken (onmessage m h) = accessToken h"
  by (cases m; simp add: setState_def deferred_resolve_keeps)+

lemma handler_keeps:
  "intervals (handler e h) = intervals h"
  "timerRef (handler e h) = timerRef h"
  "worker (handler e h) = worker h"
  by (cases e;
      simp add: onmessage_keeps handleVisibilityChange_def postMessage_def Let_def
        timeout_fired_def clearTimeout_def deferred_reject_keeps_timer interval_tick_def
        send_def on_def
        off_def unload_def split: list.split)+

lemma poll_cleanup_clears:
  assumes "poll_inv prev" and "intervals h = intervals prev" and "timerRef h = timerRef prev"
  shows "intervals (poll_cleanup h) = []"
  using assms
  by (auto simp: poll_inv_def poll_cleanup_def clearInterval_def
      split: if_splits option.splits)

lemma poll_effect_establishes: "intervals h = [] \<Longrightarrow> poll_inv (poll_effect h)"
  by (cases "disconnected (state h)"; cases "accessToken h"; cases "timerRef h")
     (auto simp: poll_inv_def poll_condition_def poll_effect_def clearInterval_def truthy_def)

lemma run_effects_poll:
  "run_effects a b True h =
     poll_effect ((if b then init_effect else id)
       ((if a then (\<lambda>h1. let r = status_effect (options h1) (state h1)
                         in h1\<lparr>calls := calls h1 @ fst r, statusDestroy := snd r\<rparr>)
         else id)
         (poll_cleanup ((if a then status_cleanup else id) h))))"
  by (simp add: run_effects_def Let_def)

lemma run_effects_no_poll:
  "intervals (run_effects a b False h) = intervals h"
  "timerRef (run_effects a b False h) = timerRef h"
  by (simp_all add: run_effects_def Let_def effect_fields)

lemma poll_inv_commit:
  assumes inv: "poll_inv prev"
    and same: "intervals h = intervals prev" "timerRef h = timerRef prev"
  shows "poll_inv (commit prev h)"
proof (cases "disconnected (state prev) \<noteq> disconnected (state h) \<or>
    accessToken prev \<noteq> accessToken h \<or> worker prev \<noteq> worker h \<or> ready prev \<noteq> ready h")
  case True
  have "intervals (poll_cleanup h) = []"
    using inv same by (rule poll_cleanup_clears)
  moreover have "intervals (poll_cleanup (status_cleanup h)) = []"
    using inv same by (intro poll_cleanup_clears [of prev]) (simp_all add: status_cleanup_fields)
  ultimately show ?thesis
    using True
    by (simp add: commit_def run_effects_poll poll_effect_establishes effect_fields Let_def)
next
  case False
  then have cond: "poll_condition (commit prev h) = poll_condition prev"
    by (simp add: poll_condition_def commit_fields)
  have "intervals (commit prev h) = intervals prev" "timerRef (commit prev h) = timerRef prev"
    using False same by (simp_all add: commit_def run_effects_no_poll)
  moreover have "accessToken (commit prev h) = accessToken prev"
    using False by (simp add: commit_fields)
  ultimately show ?thesis
    using inv cond by (auto simp: poll_inv_def split: if_splits option.splits)
qed

lemma poll_inv_step: "poll_inv h \<Longrightarrow> poll_inv (step h e)"
  unfolding step_commit by (rule poll_inv_commit) (simp_all add: handler_keeps)

lemma handle_all_keeps:
  "intervals (handle_all es h) = intervals h"
  "timerRef (handle_all es h) = timerRef h"
  unfolding handle_all_def
  by (induction es arbitrary: h) (simp_all add: handler_keeps)

text \<open>The relation also holds after every render when React batches events into tasks.\<close>

lemma poll_inv_task: "poll_inv h \<Longrightarrow> poll_inv (task h es)"
  unfolding task_def by (rule poll_inv_commit) (simp_all add: handle_all_keeps)

lemma poll_inv_run_tasks: "poll_inv h \<Longrightarrow> poll_inv (run_tasks h tasks)"
  unfolding run_tasks_def by (induction tasks arbitrary: h) (simp_all add: poll_inv_task)

lemma poll_inv_run: "poll_inv h \<Longrightarrow> poll_inv (run h es)"
  unfolding run_def by (induction es arbitrary: h) (simp_all add: poll_inv_step)

lemma poll_inv_mount: "poll_inv (mount token opts)"
  by (simp add: poll_inv_def poll_condition_def mount_fields)

lemma poll_inv_reachable: "poll_inv (run (mount token opts) es)"
  by (rule poll_inv_run) (rule poll_inv_mount)

lemma worker_step: "worker (step h e) = worker h"
  by (simp add: step_commit commit_fields handler_keeps)

lemma worker_run: "worker (run h es) = worker h"
  unfolding run_def by (induction es arbitrary: h) (simp_all add: worker_step)

lemma worker_reachable: "worker (run (mount token opts) es)"
  by (simp add: worker_run mount_fields)





text \<open>
  C6, as the code has it: in every state that a mounted hook reaches, a reconnect interval
  is active exactly when the status is unset, \<^verbatim>\<open>closed\<close> or \<^verbatim>\<open>error\<close>, a credential is present
  and the transport is marked ready. So it never runs while the status is \<^verbatim>\<open>connected\<close>,
  \<^verbatim>\<open>reconnected\<close> or \<^verbatim>\<open>reconnecting\<close>. The timeout of a pending liveness probe forces the
  status \<^verbatim>\<open>closed\<close> and marks the transport not ready: in the state it reaches no interval
  is active.
\<close>

theorem reconnect_timer_synchronized:
  "(intervals (run (mount token opts) es) \<noteq> []) =
     (disconnected (state (run (mount token opts) es))
      \<and> truthy (accessToken (run (mount token opts) es))
      \<and> ready (run (mount token opts) es))
   \<and> (probe_pending k (run (mount token opts) es) \<longrightarrow>
        state (step (run (mount token opts) es) (TimeoutFired k)) = Some worker_lost
        \<and> \<not> ready (step (run (mount token opts) es) (TimeoutFired k))
        \<and> intervals (step (run (mount token opts) es) (TimeoutFired k)) = [])"
proof -
  let ?h = "run (mount token opts) es"
  have inv: "poll_inv ?h" by (rule poll_inv_reachable)
  have w: "worker ?h" by (rule worker_reachable)
  have sync: "(intervals ?h \<noteq> []) = (disconnected (state ?h) \<and> truthy (accessToken ?h) \<and> ready ?h)"
    using inv w by (auto simp: poll_inv_def poll_condition_def split: if_splits option.splits)
  have lost: "state (step ?h (TimeoutFired k)) = Some worker_lost
      \<and> \<not> ready (step ?h (TimeoutFired k)) \<and> intervals (step ?h (TimeoutFired k)) = []"
    if "probe_pending k ?h"
  proof -
    have st: "state (step ?h (TimeoutFired k)) = Some worker_lost"
      and nr: "\<not> ready (step ?h (TimeoutFired k))"
      using that by (simp_all add: step_commit commit_fields timeout_fired_pending)
    have "poll_inv (step ?h (TimeoutFired k))"
      using inv by (rule poll_inv_step)
    then have "intervals (step ?h (TimeoutFired k)) = []"
      using nr by (simp add: poll_inv_def poll_condition_def)
    then show ?thesis using st nr by simp
  qed
  show ?thesis
    using sync lost by blast
qed

theorem reconnect_timer_synchronized_witness:
  "(intervals (run (mount (Some ''tok'') all_callbacks :: unit hook)
        [Message WorkerReady, VisibilityChange]) \<noteq> [])
     = (disconnected (state (run (mount (Some ''tok'') all_callbacks :: unit hook)
          [Message WorkerReady, VisibilityChange]))
        \<and> truthy (accessToken (run (mount (Some ''tok'') all_callbacks :: unit hook)
          [Message WorkerReady, VisibilityChange]))
        \<and> ready (run (mount (Some ''tok'') all_callbacks :: unit hook)
          [Message WorkerReady, VisibilityChange]))
   \<and> state (step (run (mount (Some ''tok'') all_callbacks :: unit hook)
        [Message WorkerReady, VisibilityChange]) (TimeoutFired 2)) = Some worker_lost
   \<and> \<not> ready (step (run (mount (Some ''tok'') all_callbacks :: unit hook)
        [Message WorkerReady, VisibilityChange]) (TimeoutFired 2))
   \<and> intervals (step (run (mount (Some ''tok'') all_callbacks :: unit hook)
        [Message WorkerReady, VisibilityChange]) (TimeoutFired 2)) = []"
proof -
  have pending: "probe_pending 2 (run (mount (Some ''tok'') all_callbacks :: unit hook)
      [Message WorkerReady, VisibilityChange])"
    by code_simp
  show ?thesis
    using
      reconnect_timer_synchronized
        [of "Some ''tok''" all_callbacks "[Message WorkerReady, VisibilityChange]" 2]
      pending
    by blast
qed

text \<open>
  The run \<open>lost_probe\<close>: the worker is ready, a liveness probe starts and its timeout
  fires. The status is \<^verbatim>\<open>closed\<close> and the credential is present, but no interval is active,
  and a tick of the interval that was active before sends nothing.
\<close>

theorem probe_timeout_stops_reconnect_timer:
  "status (the (state (run (mount (Some ''tok'') all_callbacks) lost_probe))) = Closed
   \<and> accessToken (run (mount (Some ''tok'') all_callbacks) lost_probe) = Some ''tok''
   \<and> disconnected (state (run (mount (Some ''tok'') all_callbacks) lost_probe))
   \<and> truthy (accessToken (run (mount (Some ''tok'') all_callbacks) lost_probe))
   \<and> intervals (run (mount (Some ''tok'') all_callbacks) lost_probe) = []
   \<and> sent (run (mount (Some ''tok'') all_callbacks) lost_probe) (IntervalTick 1) = []"
  by code_simp

section \<open>Messages posted to the worker\<close>

lemma posted_onmessage: "posted (onmessage m h) = posted h"
  by (rule onmessage_keeps)

lemma posted_handler:
  "posted (handler e h) = posted h @
     (case e of
        VisibilityChange \<Rightarrow> if worker h then [Ping] else []
      | IntervalTick k \<Rightarrow>
          (case filter (\<lambda>p. fst p = k) (intervals h) of
             [] \<Rightarrow> []
           | p # _ \<Rightarrow> [ConnectionInit (snd (snd p))])
      | CallSend target args \<Rightarrow> if worker h then [Send target args] else []
      | CallOn target cb \<Rightarrow> if worker h then [EventRegister target] else []
      | _ \<Rightarrow> [])"
  by (cases e)
     (simp_all add: posted_onmessage handleVisibilityChange_def postMessage_def Let_def
        timeout_fired_def clearTimeout_def deferred_reject_keeps_timer interval_tick_def
        send_def on_def off_def unload_def split: list.split)

lemma sent_eq:
  "sent h e =
     drop (length (posted h)) (posted (handler e h)) @
     (if (worker h \<noteq> worker (handler e h) \<or> accessToken h \<noteq> accessToken (handler e h)
          \<or> ready h \<noteq> ready (handler e h))
         \<and> worker (handler e h) \<and> ready (handler e h) \<and> truthy (accessToken (handler e h))
      then [ConnectionInit (the (accessToken (handler e h)))] else [])"
proof -
  obtain xs where xs: "posted (handler e h) = posted h @ xs"
    using posted_handler [of e h] by blast
  show ?thesis
    unfolding sent_def step_commit posted_commit by (simp add: xs)
qed

lemma sent_Render:
  "sent h (Render token opts) =
     (if accessToken h \<noteq> token \<and> worker h \<and> ready h \<and> truthy token
      then [ConnectionInit (the token)] else [])"
  by (subst sent_eq) simp

lemma sent_WorkerReady:
  "sent h (Message WorkerReady) =
     (if \<not> ready h \<and> worker h \<and> truthy (accessToken h)
      then [ConnectionInit (the (accessToken h))] else [])"
  by (subst sent_eq) auto

lemma handler_tick_fields:
  "ready (interval_tick k h) = ready h"
  "accessToken (interval_tick k h) = accessToken h"
  by (simp_all add: interval_tick_def split: list.split)

lemma init_from_handler:
  assumes "ConnectionInit c \<in> set (drop (length (posted h)) (posted (handler e h)))"
  shows "\<exists>k period. e = IntervalTick k \<and> (k, period, c) \<in> set (intervals h)"
proof -
  have "ConnectionInit c \<in> set (case e of
        VisibilityChange \<Rightarrow> if worker h then [Ping] else []
      | IntervalTick k \<Rightarrow>
          (case filter (\<lambda>p. fst p = k) (intervals h) of
             [] \<Rightarrow> []
           | p # _ \<Rightarrow> [ConnectionInit (snd (snd p))])
      | CallSend target args \<Rightarrow> if worker h then [Send target args] else []
      | CallOn target cb \<Rightarrow> if worker h then [EventRegister target] else []
      | _ \<Rightarrow> [])"
    using assms by (subst (asm) posted_handler) simp
  then show ?thesis
    by (cases e) (auto split: if_splits list.splits dest!: Cons_eq_filterD)
qed

lemma init_only_when_ready:
  assumes inv: "poll_inv h" and w: "worker h"
    and init: "ConnectionInit c \<in> set (sent h e)"
  shows "ready (step h e) \<and> accessToken (step h e) = Some c \<and> c \<noteq> []"
proof -
  let ?h' = "handler e h"
  have fields: "ready (step h e) = ready ?h'" "accessToken (step h e) = accessToken ?h'"
    by (simp_all add: step_commit commit_fields)
  have "ConnectionInit c \<in> set (drop (length (posted h)) (posted ?h'))
      \<or> (ready ?h' \<and> truthy (accessToken ?h') \<and> c = the (accessToken ?h'))"
    using init by (subst (asm) sent_eq) (auto split: if_splits)
  then consider (tick) "ConnectionInit c \<in> set (drop (length (posted h)) (posted ?h'))"
    | (effect) "ready ?h'" "truthy (accessToken ?h')" "c = the (accessToken ?h')"
    by blast
  then show ?thesis
  proof cases
    case tick
    then obtain k period where e: "e = IntervalTick k"
      and "(k, period, c) \<in> set (intervals h)"
      using init_from_handler by blast
    then have "poll_condition h" and "accessToken h = Some c"
      using inv by (auto simp: poll_inv_def split: if_splits option.splits)
    moreover have "ready (step h e) = ready h" "accessToken (step h e) = accessToken h"
      using e by (simp_all add: step_commit commit_fields handler_tick_fields)
    ultimately show ?thesis
      by (simp add: poll_condition_def truthy_def)
  next
    case effect
    then show ?thesis
      by (cases "accessToken ?h'") (simp_all add: fields truthy_def)
  qed
qed

text \<open>
  C8: \<^verbatim>\<open>connection:init\<close> is posted when a worker is there and both conditions come to hold
  or the credential changes. A render with a new, non-empty credential while the
  transport is ready posts it with the new credential (whether there was none before or
  a different one); \<^verbatim>\<open>worker:ready\<close> arriving while a credential is present posts it; a render
  with the same credential posts nothing. And whenever a mounted hook posts
  \<^verbatim>\<open>connection:init\<close>, during any event, the transport is ready and the message carries the
  current, non-empty credential.
\<close>

theorem init_when_ready_and_credential:
  "(worker h \<and> ready h \<and> accessToken h \<noteq> Some token \<and> token \<noteq> [] \<longrightarrow>
      sent h (Render (Some token) opts) = [ConnectionInit token])
   \<and> (worker h \<and> \<not> ready h \<and> accessToken h = Some token \<and> token \<noteq> [] \<longrightarrow>
      sent h (Message WorkerReady) = [ConnectionInit token])
   \<and> sent h (Render (accessToken h) opts) = []
   \<and> (ConnectionInit c \<in> set (sent (run (mount token0 opts0) es) e) \<longrightarrow>
        ready (step (run (mount token0 opts0) es) e)
        \<and> accessToken (step (run (mount token0 opts0) es) e) = Some c \<and> c \<noteq> [])"
  using init_only_when_ready [OF poll_inv_reachable worker_reachable, of c token0 opts0 es e]
  by (simp add: sent_Render sent_WorkerReady truthy_def)

theorem init_when_ready_and_credential_witness:
  "sent (run (mount None all_callbacks :: unit hook) [Message WorkerReady])
       (Render (Some ''tok'') all_callbacks) = [ConnectionInit ''tok'']
   \<and> sent (run (mount (Some ''old'') all_callbacks :: unit hook) [Message WorkerReady])
       (Render (Some ''new'') all_callbacks) = [ConnectionInit ''new'']
   \<and> sent (mount (Some ''tok'') all_callbacks :: unit hook) (Message WorkerReady)
       = [ConnectionInit ''tok'']
   \<and> ready (step (mount (Some ''tok'') all_callbacks :: unit hook) (Message WorkerReady))
   \<and> accessToken (step (mount (Some ''tok'') all_callbacks :: unit hook) (Message WorkerReady))
       = Some ''tok''"
proof -
  let ?h1 = "run (mount None all_callbacks :: unit hook) [Message WorkerReady]"
  let ?h2 = "run (mount (Some ''old'') all_callbacks :: unit hook) [Message WorkerReady]"
  let ?h3 = "mount (Some ''tok'') all_callbacks :: unit hook"
  have h1: "worker ?h1 \<and> ready ?h1 \<and> accessToken ?h1 \<noteq> Some ''tok'' \<and> ''tok'' \<noteq> []"
    by code_simp
  have h2: "worker ?h2 \<and> ready ?h2 \<and> accessToken ?h2 \<noteq> Some ''new'' \<and> ''new'' \<noteq> []"
    by code_simp
  have h3: "worker ?h3 \<and> \<not> ready ?h3 \<and> accessToken ?h3 = Some ''tok'' \<and> ''tok'' \<noteq> []"
    by code_simp
  have first: "sent ?h1 (Render (Some ''tok'') all_callbacks) = [ConnectionInit ''tok'']"
    using init_when_ready_and_credential [of ?h1 "''tok''" all_callbacks] h1 by blast
  have second: "sent ?h2 (Render (Some ''new'') all_callbacks) = [ConnectionInit ''new'']"
    using init_when_ready_and_credential [of ?h2 "''new''" all_callbacks] h2 by blast
  have third: "sent ?h3 (Message WorkerReady) = [ConnectionInit ''tok'']"
    using init_when_ready_and_credential [of ?h3 "''tok''" all_callbacks] h3 by blast
  have "ConnectionInit ''tok'' \<in> set (sent (run ?h3 []) (Message WorkerReady))"
    using third by (simp add: run_def)
  then have "ready (step (run ?h3 []) (Message WorkerReady))
      \<and> accessToken (step (run ?h3 []) (Message WorkerReady)) = Some ''tok''"
    using init_when_ready_and_credential
        [of ?h3 "''tok''" all_callbacks "''tok''" "Some ''tok''" all_callbacks "[]"
            "Message WorkerReady"]
    by blast
  then show ?thesis
    using first second third by (simp add: run_def)
qed

section \<open>The facade\<close>

text \<open>
  C9: with a worker, \<^verbatim>\<open>send(target, args)\<close> posts the one message
  \<^verbatim>\<open>{type: 'send', target, args}\<close> and changes nothing else; the model of \<^verbatim>\<open>send\<close> returns the
  hook only, as the source returns no value. Without a worker \<^verbatim>\<open>send\<close> does nothing at
  all, and neither \<^verbatim>\<open>on\<close> nor the ping of a liveness probe posts anything.
\<close>

theorem send_posts_or_noop:
  "(worker h \<longrightarrow>
      step h (CallSend target args) = h\<lparr>posted := posted h @ [Send target args]\<rparr>)
   \<and> (\<not> worker h \<longrightarrow> step h (CallSend target args) = h)
   \<and> (\<not> worker h \<longrightarrow> posted (step h (CallOn target cb)) = posted h)
   \<and> (\<not> worker h \<longrightarrow> posted (step h VisibilityChange) = posted h)"
proof -
  have send: "step h (CallSend target args) = send target args h"
    by (simp add: step_commit send_def postMessage_def commit_unchanged)
  have on: "posted (step h (CallOn target cb)) = posted h" if "\<not> worker h"
    using that by (simp add: step_commit posted_commit on_def postMessage_def Let_def)
  have ping: "posted (step h VisibilityChange) = posted h" if "\<not> worker h"
    using that
    by (simp add: step_commit posted_commit handleVisibilityChange_def postMessage_def Let_def)
  show ?thesis
    using on ping by (simp add: send send_def postMessage_def)
qed

theorem send_posts_or_noop_witness:
  "step (mount None all_callbacks :: nat hook) (CallSend ''chat'' 7)
     = (mount None all_callbacks)\<lparr>posted := posted (mount None all_callbacks) @ [Send ''chat'' 7]\<rparr>
   \<and> step (first_render None all_callbacks :: nat hook) (CallSend ''chat'' 7)
     = first_render None all_callbacks
   \<and> posted (step (first_render None all_callbacks :: nat hook) (CallOn ''chat'' 0)) = []
   \<and> posted (step (first_render None all_callbacks :: nat hook) VisibilityChange) = []"
  using
    send_posts_or_noop [of "mount None all_callbacks :: nat hook" "''chat''" 7 0]
    send_posts_or_noop [of "first_render None all_callbacks :: nat hook" "''chat''" 7 0]
  by (simp add: mount_fields first_render_def)

section \<open>Listeners\<close>

lemma emitterRef_onmessage: "emitterRef (onmessage m h) = emitterRef h"
  by (cases m) (simp_all add: setState_def deferred_resolve_quiet)

lemma emitterRef_timeout_fired: "emitterRef (timeout_fired k h) = emitterRef h"
  by (simp add: timeout_fired_def deferred_reject_emitterRef clearTimeout_def)

lemma emitterRef_step:
  "emitterRef (step h e) =
     (case e of
        CallOn target cb \<Rightarrow> emitter_on target cb (emitterRef h)
      | CallOff target cb \<Rightarrow> emitter_off target cb (emitterRef h)
      | TabClose \<Rightarrow> emitter_stop (emitterRef h)
      | _ \<Rightarrow> emitterRef h)"
  by (cases e)
     (simp_all add: step_commit commit_fields emitterRef_onmessage emitterRef_timeout_fired
        facade_keeps)

lemma unregistered_step:
  assumes "(target, cb) \<notin> set (emitterRef h)" and "e \<noteq> CallOn target cb"
  shows "(target, cb) \<notin> set (emitterRef (step h e))"
  using assms
  by (cases e) (auto simp: emitterRef_step emitter_on_def emitter_off_def emitter_stop_def)

lemma unregistered_run:
  assumes "(target, cb) \<notin> set (emitterRef h)" and "CallOn target cb \<notin> set es"
  shows "(target, cb) \<notin> set (emitterRef (run h es))"
  using assms
proof (induction es arbitrary: h)
  case Nil
  then show ?case by (simp add: run_def)
next
  case (Cons e es)
  have "e \<noteq> CallOn target cb" and rest: "CallOn target cb \<notin> set es"
    using Cons.prems(2) by auto
  then have "(target, cb) \<notin> set (emitterRef (step h e))"
    using Cons.prems(1) by (simp add: unregistered_step)
  then have "(target, cb) \<notin> set (emitterRef (run (step h e) es))"
    using rest by (rule Cons.IH)
  then show ?case by (simp add: run_def)
qed

lemma invoked_EventReceived:
  "invoked h (Message (EventReceived target payload))
     = emitter_emit (emitterRef h) target payload"
  by (simp add: invoked_def step_commit calls_commit)

lemma listener_of_emit:
  "set (map listener_of (emitter_emit em target payload))
     = {Some cb | cb. (target, cb) \<in> set em}"
  by (auto simp: emitter_emit_def image_iff)

text \<open>
  C7: after \<^verbatim>\<open>on(target, cb)\<close> and \<^verbatim>\<open>off(target, cb)\<close>, and whatever happens next short of
  registering \<open>cb\<close> on \<open>target\<close> again, an \<^verbatim>\<open>event:received\<close> message for \<open>target\<close> does not
  invoke \<open>cb\<close>. A second callback \<open>cb'\<close> registered on the same target by its own call of
  \<^verbatim>\<open>on\<close>, before or after the one of \<open>cb\<close>, is still invoked with the payload after \<open>cb\<close>
  is removed. And \<^verbatim>\<open>off\<close> posts nothing to the worker.
\<close>

theorem off_removes_listener_locally:
  "(CallOn target cb \<notin> set es \<longrightarrow>
      Some cb \<notin> set (map listener_of
        (invoked (run (step (step h (CallOn target cb)) (CallOff target cb)) es)
           (Message (EventReceived target payload)))))
   \<and> (cb' \<noteq> cb \<longrightarrow>
      CallListener cb' payload \<in> set
        (invoked (step (step (step h (CallOn target cb)) (CallOn target cb')) (CallOff target cb))
           (Message (EventReceived target payload)))
      \<and> CallListener cb' payload \<in> set
        (invoked (step (step (step h (CallOn target cb')) (CallOn target cb)) (CallOff target cb))
           (Message (EventReceived target payload))))
   \<and> sent h (CallOff target cb) = []"
proof -
  let ?off = "step (step h (CallOn target cb)) (CallOff target cb)"
  have "(target, cb) \<notin> set (emitterRef ?off)"
    by (simp add: emitterRef_step emitter_off_def)
  then have removed: "Some cb \<notin> set (map listener_of
      (invoked (run ?off es) (Message (EventReceived target payload))))"
    if "CallOn target cb \<notin> set es"
    using unregistered_run [OF _ that, of ?off]
    by (simp only: invoked_EventReceived listener_of_emit) simp
  have kept: "CallListener cb' payload \<in> set
        (invoked (step (step (step h (CallOn target cb)) (CallOn target cb')) (CallOff target cb))
           (Message (EventReceived target payload)))
      \<and> CallListener cb' payload \<in> set
        (invoked (step (step (step h (CallOn target cb')) (CallOn target cb)) (CallOff target cb))
           (Message (EventReceived target payload)))"
    if "cb' \<noteq> cb"
    using that
    by (auto simp: invoked_EventReceived emitterRef_step emitter_emit_def emitter_on_def
        emitter_off_def image_iff)
  have quiet: "sent h (CallOff target cb) = []"
    by (subst sent_eq) (simp add: off_def)
  show ?thesis
    using removed kept quiet by blast
qed

theorem off_removes_listener_locally_witness:
  "Some 1 \<notin> set (map listener_of
      (invoked (run (step (step (mount None all_callbacks :: nat hook) (CallOn ''chat'' 1))
                  (CallOff ''chat'' 1)) [Message ConnectionReady, CallOn ''chat'' 2])
         (Message (EventReceived ''chat'' 7))))
   \<and> CallListener 2 7 \<in> set
      (invoked (step (step (step (mount None all_callbacks :: nat hook) (CallOn ''chat'' 1))
                  (CallOn ''chat'' 2)) (CallOff ''chat'' 1))
         (Message (EventReceived ''chat'' 7)))
   \<and> sent (mount None all_callbacks :: nat hook) (CallOff ''chat'' 1) = []"
proof -
  have later: "CallOn ''chat'' 1 \<notin> set [Message ConnectionReady, CallOn ''chat'' 2 :: nat event]"
    by simp
  have other: "(2::nat) \<noteq> 1" by simp
  show ?thesis
    using
      off_removes_listener_locally
        [of "''chat''" 1 "[Message ConnectionReady, CallOn ''chat'' 2]"
            "mount None all_callbacks :: nat hook" 7 2]
      later other
    by blast
qed

section \<open>No status before the first lifecycle event\<close>

lemma onmessage_status_calls:
  "filter is_status_call (calls (onmessage m h)) = filter is_status_call (calls h)"
  by (cases m) (simp_all add: setState_def emitter_emit_def deferred_resolve_quiet o_def)

lemma handler_status_calls:
  "filter is_status_call (calls (handler e h)) = filter is_status_call (calls h)"
  by (cases e) (simp_all add: onmessage_status_calls timeout_fired_keeps facade_keeps)

lemma quiet_step:
  assumes "state h = None \<longrightarrow> filter is_status_call (calls h) = []"
    and "state (step h e) = None"
  shows "filter is_status_call (calls (step h e)) = []"
proof -
  have "state (handler e h) = None"
    using assms(2) by (simp add: step_commit commit_fields)
  then have "state h = None" and "stateId (handler e h) = stateId h"
    using handler_unset by blast+
  then show ?thesis
    using assms(1) by (simp add: step_commit calls_commit handler_status_calls)
qed

lemma quiet_run:
  assumes "state h = None \<longrightarrow> filter is_status_call (calls h) = []"
  shows "state (run h es) = None \<longrightarrow> filter is_status_call (calls (run h es)) = []"
  using assms unfolding run_def
proof (induction es arbitrary: h)
  case Nil
  then show ?case by simp
next
  case (Cons e es)
  have "state (step h e) = None \<longrightarrow> filter is_status_call (calls (step h e)) = []"
    using quiet_step [OF Cons.prems] by blast
  then show ?case
    using Cons.IH [of "step h e"] by simp
qed

lemma onmessage_first_status:
  assumes "state h = None" and "state (onmessage m h) \<noteq> None"
  shows "lifecycle m"
  using assms by (cases m) (simp_all add: state_deferred_resolve)

lemma first_status_event:
  assumes "state h = None" and "state (step h e) \<noteq> None"
  shows "(\<exists>m. e = Message m \<and> lifecycle m) \<or> (\<exists>k. e = TimeoutFired k)"
proof (cases e)
  case (Message m)
  then have "state (onmessage m h) \<noteq> None"
    using assms(2) by (simp add: step_commit commit_fields)
  then have "lifecycle m"
    using assms(1) onmessage_first_status by blast
  then show ?thesis
    using Message by simp
qed (use assms in \<open>simp_all add: step_commit commit_fields facade_keeps\<close>)

text \<open>
  C10: a status message has one of the five statuses, so \<^verbatim>\<open>unset\<close> is the absence of a
  status message and is never passed to \<^verbatim>\<open>onStatusChange\<close>. As long as a mounted hook has no
  status it has invoked no status callback at all, and the event that gives it its first
  status is a connection lifecycle message or the timeout of a liveness probe.
\<close>

theorem unset_never_delivered:
  "(CallStatusChange s \<in> set (calls (run (mount token opts) es)) \<longrightarrow>
      status s \<in> {Connected, Closed, Error, Reconnected, Reconnecting})
   \<and> (state (run (mount token opts) es) = None \<longrightarrow>
        filter is_status_call (calls (run (mount token opts) es)) = [])
   \<and> (state (run (mount token opts) es) = None
        \<and> state (step (run (mount token opts) es) e) \<noteq> None \<longrightarrow>
        (\<exists>m. e = Message m \<and> lifecycle m) \<or> (\<exists>k. e = TimeoutFired k))"
proof -
  have five: "status s \<in> {Connected, Closed, Error, Reconnected, Reconnecting}"
    by (cases "status s") simp_all
  have quiet: "state (run (mount token opts) es) = None \<longrightarrow>
      filter is_status_call (calls (run (mount token opts) es)) = []"
    by (rule quiet_run) (simp add: mount_fields)
  show ?thesis
    using five quiet first_status_event [of "run (mount token opts) es" e] by blast
qed

theorem unset_never_delivered_witness:
  "filter is_status_call
     (calls (run (mount (Some ''tok'') all_callbacks :: nat hook)
        [Message WorkerReady, CallOn ''chat'' 1, Message (EventReceived ''chat'' 7)])) = []
   \<and> status \<lparr>status = Connected, message = None\<rparr>
       \<in> {Connected, Closed, Error, Reconnected, Reconnecting}
   \<and> ((\<exists>m. (Message ConnectionReady :: nat event) = Message m \<and> lifecycle m)
       \<or> (\<exists>k. (Message ConnectionReady :: nat event) = TimeoutFired k))"
proof -
  let ?es = "[Message WorkerReady, CallOn ''chat'' 1, Message (EventReceived ''chat'' 7)]
      :: nat event list"
  let ?h = "run (mount (Some ''tok'') all_callbacks :: nat hook) ?es"
  have unset: "state ?h = None"
    by code_simp
  have first: "state (step ?h (Message ConnectionReady)) \<noteq> None"
    by code_simp
  have delivered: "CallStatusChange \<lparr>status = Connected, message = None\<rparr>
      \<in> set (calls (run (mount (Some ''tok'') all_callbacks :: nat hook) [Message ConnectionReady]))"
    by code_simp
  show ?thesis
    using
      unset_never_delivered
        [of "\<lparr>status = Connected, message = None\<rparr>" "Some ''tok''" all_callbacks
            "[Message ConnectionReady]" "Message ConnectionReady"]
      unset_never_delivered
        [of "\<lparr>status = Connected, message = None\<rparr>" "Some ''tok''" all_callbacks
            ?es "Message ConnectionReady"]
      unset first delivered
    by blast
qed

end
